theory Spec2Isabelle
  imports Complex_Main "HOL-Library.Word"
begin

unbundle bit_operations_syntax

section \<open>Data model\<close>

text \<open>
  The firmware runs on an 8-bit AVR: registers are 8 bits wide, the Timer1 counter and the
  ADC data register are 16 bits wide, and \<open>int\<close> is 16 bits. The two programs of the
  repository are \<open>Resistance/Resistance.ino\<close> (the multimeter) and the calibration sketch
  (\<open>unnamed/part_000\<close>); definitions of the second carry the suffix \<open>_part000\<close> where
  they differ from the first.

  The C type \<open>float\<close> is modelled by \<open>real\<close>: sums, quotients and products are exact, the
  rounding of IEEE single precision is not modelled.
\<close>

type_synonym u8 = "8 word"
type_synonym u16 = "16 word"

text \<open>The globals and the special-function registers the measurement code touches.\<close>

record mcu =
  PORTB :: u8
  ADMUX :: u8
  ADCSRA :: u8
  ADC :: u16
  TCCR1A :: u8
  TCCR1B :: u8
  TIMSK1 :: u8
  TCNT1 :: u16
  TOV1 :: bool
  timer1_overflow :: real

text \<open>Pin numbers, as the constants at the head of \<open>Resistance.ino\<close>.\<close>

definition pin_capacitance :: nat where "pin_capacitance = 0"
definition pin_resistance :: nat where "pin_resistance = 1"
definition pin_voltage :: nat where "pin_voltage = 2"
definition pin_charge :: nat where "pin_charge = 4"
definition pin_current :: nat where "pin_current = 3"

text \<open>The mode codes \<open>MODE_IDLE\<close> .. \<open>MODE_CURRENT\<close>; \<open>mode\<close> is a \<open>uint8_t\<close>.\<close>

definition MODE_IDLE :: u8 where "MODE_IDLE = 0"
definition MODE_CAPACITANCE :: u8 where "MODE_CAPACITANCE = 3"
definition MODE_RESISTANCE :: u8 where "MODE_RESISTANCE = 2"
definition MODE_VOLTAGE :: u8 where "MODE_VOLTAGE = 1"
definition MODE_CURRENT :: u8 where "MODE_CURRENT = 4"

text \<open>
  Bit positions of \<open>avr/io.h\<close> for the ATmega328P. The header is not part of the repository;
  the values are those of the device's data sheet.
\<close>

definition ADSC :: nat where "ADSC = 6"
definition ADIF :: nat where "ADIF = 4"
definition CS11 :: nat where "CS11 = 1"
definition CS10 :: nat where "CS10 = 0"

section \<open>Pin macros\<close>

text \<open>
  \<open>#define PIN_LOW(port, pin) PORT##port &= !(1 << pin)\<close> and
  \<open>#define PIN_HIGH(port, pin) PORT##port |= (1 << pin)\<close>.
  The shift is computed in 16-bit \<open>int\<close>. \<open>!\<close> is C's logical negation, which yields 1 for
  zero and 0 for everything else, so \<open>PIN_LOW\<close> ands the port with 0 for every pin number
  below 16.
\<close>

definition logical_not :: "u16 \<Rightarrow> u16" where
  "logical_not x = (if x = 0 then 1 else 0)"

definition PIN_LOW :: "u8 \<Rightarrow> nat \<Rightarrow> u8" where
  "PIN_LOW port pin = port AND ucast (logical_not (push_bit pin 1))"

definition PIN_HIGH :: "u8 \<Rightarrow> nat \<Rightarrow> u8" where
  "PIN_HIGH port pin = port OR ucast (push_bit pin (1 :: u16))"

section \<open>Elapsed-time tracker\<close>

definition initTimer1 :: "mcu \<Rightarrow> mcu" where
  "initTimer1 s = s\<lparr>TCCR1A := 0, TIMSK1 := TIMSK1 s OR 1, timer1_overflow := 0\<rparr>"

definition startTimer1 :: "mcu \<Rightarrow> mcu" where
  "startTimer1 s =
     (initTimer1 s)\<lparr>TCCR1B := push_bit CS11 1 OR push_bit CS10 1, TCNT1 := 0\<rparr>"

definition stopTimer1 :: "mcu \<Rightarrow> mcu" where
  "stopTimer1 s = s\<lparr>TCCR1B := 0, timer1_overflow := 0, TCNT1 := 0\<rparr>"

text \<open>\<open>timer1_overflow + (float)(TCNT1)/250.0f\<close>: 250 ticks are one millisecond.\<close>

definition getMilliseconds :: "mcu \<Rightarrow> real" where
  "getMilliseconds s = timer1_overflow s + real (unat (TCNT1 s)) / 250"

text \<open>
  The overflow handler of \<open>Resistance.ino\<close>:
  \<open>timer1_overflow += (float)(0xFFFF)/250.0f\<close>.
\<close>

definition ISR_TIMER1_OVF :: "mcu \<Rightarrow> mcu" where
  "ISR_TIMER1_OVF s =
     s\<lparr>timer1_overflow := timer1_overflow s + real (unat (0xFFFF :: u16)) / 250\<rparr>"

text \<open>
  The calibration sketch: \<open>initTimers\<close> does not clear the accumulator, \<open>startTimer1\<close>
  does, and the overflow handler reads the counter:
  \<open>timer1_overflow += (float)TCNT1/250\<close>.
\<close>

definition initTimers_part000 :: "mcu \<Rightarrow> mcu" where
  "initTimers_part000 s = s\<lparr>TCCR1A := 0, TIMSK1 := TIMSK1 s OR 1\<rparr>"

definition startTimer1_part000 :: "mcu \<Rightarrow> mcu" where
  "startTimer1_part000 s =
     s\<lparr>TCCR1B := push_bit CS11 1 OR push_bit CS10 1, timer1_overflow := 0, TCNT1 := 0\<rparr>"

definition ISR_TIMER1_OVF_part000 :: "mcu \<Rightarrow> mcu" where
  "ISR_TIMER1_OVF_part000 s =
     s\<lparr>timer1_overflow := timer1_overflow s + real (unat (TCNT1 s)) / 250\<rparr>"

section \<open>Timer hardware\<close>

text \<open>
  Modelled from the spec: the hardware tick counter and its overflow interrupt, which are
  the microcontroller's and not code of the repository. A tick is one increment of the
  16-bit counting register while a clock is selected (the clock-select bits of
  \<open>TCCR1B\<close>); the overflow event is the register wrapping from its maximum value
  back to zero, which raises the overflow flag. The handler of the running program fires
  once for a raised flag when the overflow interrupt is enabled (bit 0 of \<open>TIMSK1\<close>),
  and the flag is cleared as it fires. Global interrupts are enabled throughout
  (\<open>sei()\<close> at the start of both \<open>main\<close> functions).
\<close>

definition timer_running :: "mcu \<Rightarrow> bool" where
  "timer_running s \<longleftrightarrow> TCCR1B s AND 7 \<noteq> 0"

definition hw_tick :: "mcu \<Rightarrow> mcu" where
  "hw_tick s =
     (if timer_running s
      then s\<lparr>TCNT1 := TCNT1 s + 1, TOV1 := (TOV1 s \<or> TCNT1 s = 0xFFFF)\<rparr>
      else s)"

definition hw_irq :: "(mcu \<Rightarrow> mcu) \<Rightarrow> mcu \<Rightarrow> mcu" where
  "hw_irq isr s =
     (if TOV1 s \<and> TIMSK1 s AND 1 \<noteq> 0 then isr (s\<lparr>TOV1 := False\<rparr>) else s)"

text \<open>
  The events that can fall between two instructions of the main flow, and a run of them.
\<close>

datatype event = Tick | Irq

fun fire :: "(mcu \<Rightarrow> mcu) \<Rightarrow> event \<Rightarrow> mcu \<Rightarrow> mcu" where
  "fire isr Tick s = hw_tick s"
| "fire isr Irq s = hw_irq isr s"

fun run :: "(mcu \<Rightarrow> mcu) \<Rightarrow> event list \<Rightarrow> mcu \<Rightarrow> mcu" where
  "run isr [] s = s"
| "run isr (e # es) s = run isr es (fire isr e s)"

text \<open>
  \<open>elapse isr n\<close>: \<open>n\<close> ticks pass, and the handler is served right after each overflow.
\<close>

fun elapse :: "(mcu \<Rightarrow> mcu) \<Rightarrow> nat \<Rightarrow> mcu \<Rightarrow> mcu" where
  "elapse isr 0 s = s"
| "elapse isr (Suc n) s = elapse isr n (hw_irq isr (hw_tick s))"

section \<open>Analog sampler\<close>

text \<open>
  Modelled from the spec: the converter hardware, which is the microcontroller's and not
  code of the repository. One \<open>conversion\<close> is what the hardware does while
  \<open>readADC\<close> busy-waits: \<open>elapsed\<close> timer ticks pass, then the data register holds the
  sample of the channel selected by the low four bits of \<open>ADMUX\<close>, the start bit reads
  zero again and the conversion-complete flag is raised. \<open>analog\<close> gives the sample the
  converter would deliver for each channel number.
\<close>

record conversion =
  elapsed :: nat
  analog :: "u8 \<Rightarrow> u16"

definition adc_convert :: "(mcu \<Rightarrow> mcu) \<Rightarrow> conversion \<Rightarrow> mcu \<Rightarrow> mcu" where
  "adc_convert isr c s =
     (elapse isr (elapsed c) s)
       \<lparr>ADCSRA := (ADCSRA s AND NOT (push_bit ADSC 1)) OR push_bit ADIF 1,
        ADC := analog c (ADMUX s AND 0x0F)\<rparr>"

text \<open>
  \<open>readADC(pin)\<close>, given the conversion that completes during the call:
  \<open>ADMUX |= (pin); ADCSRA |= (1<<ADSC); while (!(ADCSRA & (1 << ADIF)));
  ADCSRA |= (1<<ADIF); return ADC;\<close>. Writing a one to the flag bit clears it.
  A call during which the hardware never completes a conversion does not return; the
  callers below model that by the result \<open>None\<close> when no conversion is left.
\<close>

definition readADC :: "(mcu \<Rightarrow> mcu) \<Rightarrow> nat \<Rightarrow> conversion \<Rightarrow> mcu \<Rightarrow> u16 \<times> mcu" where
  "readADC isr pin c s =
     (let s1 = s\<lparr>ADMUX := ADMUX s OR of_nat pin\<rparr>;
          s2 = s1\<lparr>ADCSRA := ADCSRA s1 OR push_bit ADSC 1\<rparr>;
          s3 = adc_convert isr c s2;
          s4 = s3\<lparr>ADCSRA := ADCSRA s3 AND NOT (push_bit ADIF 1)\<rparr>
      in (ADC s4, s4))"

text \<open>
  The polling loops \<open>while (test(readADC(pin)));\<close>. The loop consumes one conversion per
  call of \<open>readADC\<close> and returns the state and the conversions left when the test fails;
  it is \<open>None\<close> while the test has held for every conversion supplied.
\<close>

fun poll_while ::
  "(u16 \<Rightarrow> bool) \<Rightarrow> (mcu \<Rightarrow> mcu) \<Rightarrow> nat \<Rightarrow> mcu \<Rightarrow> conversion list
     \<Rightarrow> (mcu \<times> conversion list) option" where
  "poll_while again isr pin s [] = None"
| "poll_while again isr pin s (c # env) =
     (let (v, s') = readADC isr pin c s
      in if again v then poll_while again isr pin s' env else Some (s', env))"

section \<open>Transient measurement engine\<close>

text \<open>
  The four loops of \<open>Resistance.ino\<close>. In \<open>1023 - readADC(pin_resistance) < 647\<close> the
  operand of type \<open>uint16_t\<close> makes the subtraction and the comparison unsigned 16-bit.
\<close>

definition discharge_capacitance :: "mcu \<Rightarrow> conversion list \<Rightarrow> (mcu \<times> conversion list) option" where
  "discharge_capacitance = poll_while (\<lambda>v. v \<noteq> 0) ISR_TIMER1_OVF pin_capacitance"

definition charge_capacitance :: "mcu \<Rightarrow> conversion list \<Rightarrow> (mcu \<times> conversion list) option" where
  "charge_capacitance = poll_while (\<lambda>v. v < 647) ISR_TIMER1_OVF pin_capacitance"

definition discharge_resistance :: "mcu \<Rightarrow> conversion list \<Rightarrow> (mcu \<times> conversion list) option" where
  "discharge_resistance = poll_while (\<lambda>v. v \<noteq> 0) ISR_TIMER1_OVF pin_resistance"

definition charge_resistance :: "mcu \<Rightarrow> conversion list \<Rightarrow> (mcu \<times> conversion list) option" where
  "charge_resistance = poll_while (\<lambda>v. 1023 - v < 647) ISR_TIMER1_OVF pin_resistance"

text \<open>
  \<open>calculateCapacitance\<close> up to the end of its second loop, and the whole routine: the
  value returned, the state left and the conversions not consumed.
\<close>

definition crossing_capacitance :: "mcu \<Rightarrow> conversion list \<Rightarrow> (mcu \<times> conversion list) option" where
  "crossing_capacitance s env =
     (case discharge_capacitance (s\<lparr>PORTB := PIN_LOW (PORTB s) pin_charge\<rparr>) env of
        None \<Rightarrow> None
      | Some (s1, env1) \<Rightarrow>
          (let s2 = startTimer1 s1;
               s3 = s2\<lparr>PORTB := PIN_HIGH (PORTB s2) pin_charge\<rparr>
           in charge_capacitance s3 env1))"

definition calculateCapacitance :: "mcu \<Rightarrow> conversion list \<Rightarrow> (real \<times> mcu \<times> conversion list) option" where
  "calculateCapacitance s env =
     (case crossing_capacitance s env of
        None \<Rightarrow> None
      | Some (s4, env2) \<Rightarrow>
          (let tc = getMilliseconds s4;
               s5 = s4\<lparr>PORTB := PIN_LOW (PORTB s4) pin_charge\<rparr>;
               s6 = stopTimer1 s5
           in Some (tc / 10, s6, env2)))"

definition crossing_resistance :: "mcu \<Rightarrow> conversion list \<Rightarrow> (mcu \<times> conversion list) option" where
  "crossing_resistance s env =
     (case discharge_resistance (s\<lparr>PORTB := PIN_LOW (PORTB s) pin_charge\<rparr>) env of
        None \<Rightarrow> None
      | Some (s1, env1) \<Rightarrow>
          (let s2 = startTimer1 s1;
               s3 = s2\<lparr>PORTB := PIN_HIGH (PORTB s2) pin_charge\<rparr>
           in charge_resistance s3 env1))"

definition calculateResistance :: "mcu \<Rightarrow> conversion list \<Rightarrow> (real \<times> mcu \<times> conversion list) option" where
  "calculateResistance s env =
     (case crossing_resistance s env of
        None \<Rightarrow> None
      | Some (s4, env2) \<Rightarrow>
          (let tc = getMilliseconds s4;
               s5 = s4\<lparr>PORTB := PIN_LOW (PORTB s4) pin_charge\<rparr>;
               s6 = stopTimer1 s5
           in Some (tc / 100, s6, env2)))"

text \<open>
  The two loops of \<open>getTimeConstant\<close> in the calibration sketch, which reads channel 0
  and stops charging at 645.
\<close>

definition discharge_part000 :: "mcu \<Rightarrow> conversion list \<Rightarrow> (mcu \<times> conversion list) option" where
  "discharge_part000 = poll_while (\<lambda>v. v \<noteq> 0) ISR_TIMER1_OVF_part000 0"

definition charge_part000 :: "mcu \<Rightarrow> conversion list \<Rightarrow> (mcu \<times> conversion list) option" where
  "charge_part000 = poll_while (\<lambda>v. v < 645) ISR_TIMER1_OVF_part000 0"

section \<open>Direct reading converter and mode dispatcher\<close>

text \<open>
  The conversions of the voltage and current branches of \<open>main\<close>:
  \<open>readADC(pin_voltage)*0.00488f\<close> and \<open>readADC(pin_current)*0.488f\<close>.
\<close>

definition toVoltage :: "u16 \<Rightarrow> real" where
  "toVoltage sample = real (unat sample) * (488 / 100000)"

definition toCurrent :: "u16 \<Rightarrow> real" where
  "toCurrent sample = real (unat sample) * (488 / 1000)"

text \<open>\<open>checkMode\<close>: \<open>mode = UDR0; mode -= '0';\<close> on the byte received.\<close>

definition checkMode :: "u8 \<Rightarrow> u8" where
  "checkMode udr0 = udr0 - 48"

text \<open>
  What is written to the serial line: strings and numbers (\<open>USART_sendData\<close>) and single
  bytes (\<open>USART_sendByte\<close>). The formatting of numbers by \<open>dtostrf\<close> is left out.
\<close>

datatype usart = Text string | Number real | Byte char

text \<open>
  The \<open>switch(mode)\<close> of \<open>main\<close>, from \<open>float value = 0\<close> on: what it sends, the
  \<open>value\<close> it computes, the state it leaves and the conversions it has not consumed.
\<close>

record outcome =
  sent :: "usart list"
  quantity :: real
  after :: mcu
  left :: "conversion list"

definition newline :: char where
  "newline = CHR 0x0A"

definition main_switch :: "u8 \<Rightarrow> mcu \<Rightarrow> conversion list \<Rightarrow> outcome option" where
  "main_switch mode s env =
     (if mode = MODE_CAPACITANCE then
        (case calculateCapacitance s env of
           None \<Rightarrow> None
         | Some (v, s', env') \<Rightarrow>
             Some \<lparr>sent = [Text (''Capacitance meter'' @ [newline]),
                           Text (''Calculating time constant...'' @ [newline]),
                           Text ''The capacitance is: '', Number v,
                           Text ('' uF'' @ [newline]), Byte newline],
                   quantity = v, after = s', left = env'\<rparr>)
      else if mode = MODE_RESISTANCE then
        (case calculateResistance s env of
           None \<Rightarrow> None
         | Some (v, s', env') \<Rightarrow>
             Some \<lparr>sent = [Text (''Resistance meter'' @ [newline]),
                           Text (''Calculating time constant...'' @ [newline]),
                           Text ''The resistance is: '', Number v,
                           Text ('' k ohm'' @ [newline]), Byte newline],
                   quantity = v, after = s', left = env'\<rparr>)
      else if mode = MODE_VOLTAGE then
        (case env of
           [] \<Rightarrow> None
         | c # env' \<Rightarrow>
             (let (sample, s') = readADC ISR_TIMER1_OVF pin_voltage c s;
                  v = toVoltage sample
              in Some \<lparr>sent = [Text (''Volt meter'' @ [newline]),
                               Text ''The Voltage is: '', Number v,
                               Text ('' V'' @ [newline]), Byte newline],
                       quantity = v, after = s', left = env'\<rparr>))
      else if mode = MODE_CURRENT then
        (case env of
           [] \<Rightarrow> None
         | c # env' \<Rightarrow>
             (let (sample, s') = readADC ISR_TIMER1_OVF pin_current c s;
                  v = toCurrent sample
              in Some \<lparr>sent = [Text (''Ammeter'' @ [newline]),
                               Text ''The current is: '', Number v,
                               Text ('' mA'' @ [newline]), Byte newline],
                       quantity = v, after = s', left = env'\<rparr>))
      else
        Some \<lparr>sent = [Text (''Invalid'' @ [newline])], quantity = 0, after = s, left = env\<rparr>)"

section \<open>Reads interrupted by the overflow handler\<close>

text \<open>
  \<open>getMilliseconds\<close> loads the accumulator and the counter in one expression, with no
  guard against the interrupt, and C does not fix the order of the two loads. The model
  lets a run of timer events fall between them.
\<close>

datatype load_order = AccumulatorFirst | CounterFirst

definition getMilliseconds_between ::
  "(mcu \<Rightarrow> mcu) \<Rightarrow> load_order \<Rightarrow> event list \<Rightarrow> mcu \<Rightarrow> real" where
  "getMilliseconds_between isr ord evs s =
     (case ord of
        AccumulatorFirst \<Rightarrow> timer1_overflow s + real (unat (TCNT1 (run isr evs s))) / 250
      | CounterFirst \<Rightarrow> timer1_overflow (run isr evs s) + real (unat (TCNT1 s)) / 250)"

section \<open>Notions used in the statements\<close>

text \<open>
  \<open>seen pin s env\<close> are the samples that successive calls \<open>readADC(pin)\<close> return over the
  conversions \<open>env\<close> when the first call starts in state \<open>s\<close>; \<open>first_at P vs i\<close> says
  that position \<open>i\<close> is the first one of \<open>vs\<close> whose sample satisfies \<open>P\<close>.
\<close>

definition seen :: "nat \<Rightarrow> mcu \<Rightarrow> conversion list \<Rightarrow> u16 list" where
  "seen pin s env = map (\<lambda>c. analog c ((ADMUX s OR of_nat pin) AND 0x0F)) env"

definition first_at :: "(u16 \<Rightarrow> bool) \<Rightarrow> u16 list \<Rightarrow> nat \<Rightarrow> bool" where
  "first_at P vs i \<longleftrightarrow> i < length vs \<and> P (vs ! i) \<and> (\<forall>j<i. \<not> P (vs ! j))"

text \<open>An interrupt handler that leaves the channel selection alone.\<close>

definition keeps_ADMUX :: "(mcu \<Rightarrow> mcu) \<Rightarrow> bool" where
  "keeps_ADMUX isr \<longleftrightarrow> (\<forall>s. ADMUX (isr s) = ADMUX s)"

text \<open>
  The elapsed time of \<open>Resistance.ino\<close> once a raised overflow flag has been served: the
  reading itself when no overflow is pending.
\<close>

definition served_ms :: "mcu \<Rightarrow> real" where
  "served_ms s = (if TOV1 s then timer1_overflow s + 65535 / 250 else getMilliseconds s)"

text \<open>
  \<open>ticks env\<close> is the number of timer ticks that pass during the conversions \<open>env\<close>.
  \<open>reading n\<close> is the elapsed time in milliseconds that the tracker of \<open>Resistance.ino\<close>
  shows \<open>n\<close> ticks after \<open>startTimer1\<close>: 65535/250 for each of the \<open>n div 65536\<close>
  overflows served, and 1/250 for each tick counted since the last one. \<open>tracks n s\<close> says
  that the tracker in state \<open>s\<close> is running, with its overflow interrupt enabled and none
  pending, \<open>n\<close> ticks after its start.
\<close>

definition ticks :: "conversion list \<Rightarrow> nat" where
  "ticks env = sum_list (map elapsed env)"

definition reading :: "nat \<Rightarrow> real" where
  "reading n = real (65535 * (n div 65536) + n mod 65536) / 250"

definition tracks :: "nat \<Rightarrow> mcu \<Rightarrow> bool" where
  "tracks n s \<longleftrightarrow>
     timer_running s \<and> TIMSK1 s AND 1 \<noteq> 0 \<and> \<not> TOV1 s \<and> TCNT1 s = of_nat n \<and>
     timer1_overflow s = real (n div 65536) * (65535 / 250)"

text \<open>
  \<open>handler_runs isr evs s\<close> counts the executions of the overflow handler in the run of
  the events \<open>evs\<close> from state \<open>s\<close>: the \<open>Irq\<close> events that find the overflow flag
  raised and the interrupt enabled.
\<close>

fun handler_runs :: "(mcu \<Rightarrow> mcu) \<Rightarrow> event list \<Rightarrow> mcu \<Rightarrow> nat" where
  "handler_runs isr [] s = 0"
| "handler_runs isr (Tick # evs) s = handler_runs isr evs (hw_tick s)"
| "handler_runs isr (Irq # evs) s =
     (if TOV1 s \<and> TIMSK1 s AND 1 \<noteq> 0 then 1 else 0) + handler_runs isr evs (hw_irq isr s)"

section \<open>Example states and inputs\<close>

text \<open>
  \<open>idle\<close> is the state \<open>initPins\<close> and \<open>initADC\<close> leave; \<open>wrapping\<close> is the tracker
  65535 ticks after \<open>startTimer1\<close>, one tick before the counter wraps.
\<close>

definition idle :: mcu where
  "idle = \<lparr>PORTB = 0x20, ADMUX = 0x40, ADCSRA = 0x87, ADC = 0, TCCR1A = 0, TCCR1B = 0,
     TIMSK1 = 0, TCNT1 = 0, TOV1 = False, timer1_overflow = 0\<rparr>"

definition wrapping :: mcu where
  "wrapping = \<lparr>PORTB = 0x20, ADMUX = 0x40, ADCSRA = 0x87, ADC = 0, TCCR1A = 0, TCCR1B = 3,
     TIMSK1 = 1, TCNT1 = 0xFFFF, TOV1 = False, timer1_overflow = 0\<rparr>"

text \<open>
  \<open>wrapped\<close> is the tracker of \<open>Resistance.ino\<close> one tick later than \<open>wrapping\<close>, with the
  overflow served.
\<close>

definition wrapped :: mcu where
  "wrapped = \<lparr>PORTB = 0x20, ADMUX = 0x40, ADCSRA = 0x87, ADC = 0, TCCR1A = 0, TCCR1B = 3,
     TIMSK1 = 1, TCNT1 = 0, TOV1 = False, timer1_overflow = 65535 / 250\<rparr>"

text \<open>
  \<open>level n v\<close> is a conversion that takes \<open>n\<close> ticks and delivers \<open>v\<close> on every channel;
  \<open>by_channel\<close> delivers a hundred times the channel number.
\<close>

definition level :: "nat \<Rightarrow> u16 \<Rightarrow> conversion" where
  "level n v = \<lparr>elapsed = n, analog = (\<lambda>ch. v)\<rparr>"

definition by_channel :: conversion where
  "by_channel = \<lparr>elapsed = 0, analog = (\<lambda>ch. 100 * ucast ch)\<rparr>"

definition demo_capacitance :: "conversion list" where
  "demo_capacitance = [level 0 12, level 0 0, level 3 500, level 5 700, level 0 9]"

definition demo_resistance :: "conversion list" where
  "demo_resistance = [level 0 0, level 3 900, level 5 300, level 0 9]"

text \<open>
  Two runs whose charge phase lasts 25000 ticks, that is 100 ms: every intermediate value
  of the computation is a small integer, which single precision represents exactly.
\<close>

definition exact_capacitance :: "conversion list" where
  "exact_capacitance = [level 0 12, level 0 0, level 10000 500, level 15000 700, level 0 9]"

definition exact_resistance :: "conversion list" where
  "exact_resistance = [level 0 0, level 10000 900, level 15000 300, level 0 9]"

definition crossed_capacitance :: mcu where
  "crossed_capacitance = \<lparr>PORTB = 0x10, ADMUX = 0x40, ADCSRA = 0x87, ADC = 700, TCCR1A = 0,
     TCCR1B = 3, TIMSK1 = 1, TCNT1 = 8, TOV1 = False, timer1_overflow = 0\<rparr>"

definition crossed_resistance :: mcu where
  "crossed_resistance = \<lparr>PORTB = 0x10, ADMUX = 0x41, ADCSRA = 0x87, ADC = 300, TCCR1A = 0,
     TCCR1B = 3, TIMSK1 = 1, TCNT1 = 8, TOV1 = False, timer1_overflow = 0\<rparr>"

definition measured_capacitance :: mcu where
  "measured_capacitance = \<lparr>PORTB = 0, ADMUX = 0x40, ADCSRA = 0x87, ADC = 700, TCCR1A = 0,
     TCCR1B = 0, TIMSK1 = 1, TCNT1 = 0, TOV1 = False, timer1_overflow = 0\<rparr>"

definition measured_resistance :: mcu where
  "measured_resistance = \<lparr>PORTB = 0, ADMUX = 0x41, ADCSRA = 0x87, ADC = 300, TCCR1A = 0,
     TCCR1B = 0, TIMSK1 = 1, TCNT1 = 0, TOV1 = False, timer1_overflow = 0\<rparr>"

section \<open>Facts about the hardware model and the primitives\<close>

lemma unat_succ_u16: "x \<noteq> (0xFFFF :: u16) \<Longrightarrow> unat (x + 1) = Suc (unat x)"
proof -
  assume "x \<noteq> 0xFFFF"
  then have "unat x \<noteq> unat (0xFFFF :: u16)"
    by (simp only: word_unat_eq_iff not_False_eq_True)
  moreover have "unat x < 2 ^ 16"
    using unsigned_less [of x, where ?'a = nat] by simp
  ultimately show ?thesis by (simp add: unat_word_ariths)
qed

text \<open>While the counter stays below its maximum, \<open>n\<close> ticks add \<open>n\<close> to it.\<close>

lemma elapse_below_wrap:
  "timer_running s \<Longrightarrow> \<not> TOV1 s \<Longrightarrow> unat (TCNT1 s) + n \<le> 65535 \<Longrightarrow>
   elapse isr n s = s\<lparr>TCNT1 := TCNT1 s + of_nat n\<rparr>"
proof (induction n arbitrary: s)
  case 0
  then show ?case by simp
next
  case (Suc n)
  have ne: "TCNT1 s \<noteq> 0xFFFF" using Suc.prems(3) by auto
  then have u: "unat (TCNT1 s + 1) = Suc (unat (TCNT1 s))" by (rule unat_succ_u16)
  let ?t = "s\<lparr>TCNT1 := TCNT1 s + 1\<rparr>"
  have t: "hw_irq isr (hw_tick s) = ?t"
    using Suc.prems(1,2) ne by (simp add: hw_tick_def hw_irq_def)
  have "elapse isr n ?t = ?t\<lparr>TCNT1 := TCNT1 ?t + of_nat n\<rparr>"
    using Suc.prems u by (intro Suc.IH) (simp_all add: timer_running_def)
  with t show ?case by (simp add: add.assoc)
qed

lemma elapse_stopped: "\<not> timer_running s \<Longrightarrow> \<not> TOV1 s \<Longrightarrow> elapse isr n s = s"
  by (induction n) (simp_all add: hw_tick_def hw_irq_def)

lemma wrapping_reached: "elapse ISR_TIMER1_OVF 65535 (startTimer1 idle) = wrapping"
proof -
  have "elapse ISR_TIMER1_OVF 65535 (startTimer1 idle)
      = (startTimer1 idle)\<lparr>TCNT1 := TCNT1 (startTimer1 idle) + of_nat 65535\<rparr>"
    by (rule elapse_below_wrap)
       (simp_all add: startTimer1_def initTimer1_def idle_def timer_running_def CS11_def CS10_def)
  then show ?thesis
    by (simp add: startTimer1_def initTimer1_def idle_def wrapping_def CS11_def CS10_def)
qed

lemma wrapping_reached_part000:
  "elapse ISR_TIMER1_OVF_part000 65535 (startTimer1_part000 (initTimers_part000 idle)) = wrapping"
proof -
  let ?s = "startTimer1_part000 (initTimers_part000 idle)"
  have "elapse ISR_TIMER1_OVF_part000 65535 ?s = ?s\<lparr>TCNT1 := TCNT1 ?s + of_nat 65535\<rparr>"
    by (rule elapse_below_wrap)
       (simp_all add: startTimer1_part000_def initTimers_part000_def idle_def
          timer_running_def CS11_def CS10_def)
  then show ?thesis
    by (simp add: startTimer1_part000_def initTimers_part000_def idle_def wrapping_def
        CS11_def CS10_def)
qed

text \<open>
  The handler of \<open>Resistance.ino\<close> adds the same amount whatever the counter holds; the
  handler of the calibration sketch adds what the counter holds.
\<close>

lemma ISR_adds_full_range:
  "timer1_overflow (ISR_TIMER1_OVF s) = timer1_overflow s + 65535 / 250"
  by (simp add: ISR_TIMER1_OVF_def)

lemma ISR_part000_adds_counter:
  "timer1_overflow (ISR_TIMER1_OVF_part000 s) = timer1_overflow s + real (unat (TCNT1 s)) / 250"
  by (simp add: ISR_TIMER1_OVF_part000_def)

lemma keeps_ADMUX_ISR: "keeps_ADMUX ISR_TIMER1_OVF"
  by (simp add: keeps_ADMUX_def ISR_TIMER1_OVF_def)

lemma keeps_ADMUX_ISR_part000: "keeps_ADMUX ISR_TIMER1_OVF_part000"
  by (simp add: keeps_ADMUX_def ISR_TIMER1_OVF_part000_def)

lemma ADMUX_hw_tick: "ADMUX (hw_tick s) = ADMUX s"
  by (simp add: hw_tick_def)

lemma ADMUX_hw_irq: "keeps_ADMUX isr \<Longrightarrow> ADMUX (hw_irq isr s) = ADMUX s"
  by (simp add: hw_irq_def keeps_ADMUX_def)

lemma ADMUX_elapse: "keeps_ADMUX isr \<Longrightarrow> ADMUX (elapse isr n s) = ADMUX s"
  by (induction n arbitrary: s) (simp_all add: ADMUX_hw_tick ADMUX_hw_irq)

text \<open>What one call of \<open>readADC\<close> returns and leaves.\<close>

lemma readADC_eval:
  "readADC isr pin c s =
    (analog c ((ADMUX s OR of_nat pin) AND 0x0F),
     (elapse isr (elapsed c) (s\<lparr>ADMUX := ADMUX s OR of_nat pin, ADCSRA := ADCSRA s OR 0x40\<rparr>))
       \<lparr>ADCSRA := (((ADCSRA s OR 0x40) AND NOT 0x40) OR 0x10) AND NOT 0x10,
        ADC := analog c ((ADMUX s OR of_nat pin) AND 0x0F)\<rparr>)"
  by (simp add: readADC_def adc_convert_def Let_def ADSC_def ADIF_def)

lemma readADC_sample:
  "fst (readADC isr pin c s) = analog c ((ADMUX s OR of_nat pin) AND 0x0F)"
  by (simp add: readADC_eval)

lemma readADC_ADC: "ADC (snd (readADC isr pin c s)) = fst (readADC isr pin c s)"
  by (simp add: readADC_eval)

lemma readADC_ADMUX:
  "keeps_ADMUX isr \<Longrightarrow> ADMUX (snd (readADC isr pin c s)) = ADMUX s OR of_nat pin"
  by (simp add: readADC_eval ADMUX_elapse)

lemma seen_readADC:
  "keeps_ADMUX isr \<Longrightarrow> seen pin (snd (readADC isr pin c s)) env = seen pin s env"
  by (simp add: seen_def readADC_ADMUX or.assoc)

lemma seen_Cons: "seen pin s (c # env) = fst (readADC isr pin c s) # seen pin s env"
  by (simp add: seen_def readADC_sample)

lemma seen_level: "seen pin s (level n v # env) = v # seen pin s env"
  by (simp add: seen_def level_def)

lemma seen_Nil: "seen pin s [] = []"
  by (simp add: seen_def)

section \<open>The polling loops\<close>

lemma first_at_Cons:
  "first_at P (v # vs) i \<longleftrightarrow> (if P v then i = 0 else \<exists>k. i = Suc k \<and> first_at P vs k)"
proof (cases i)
  case 0
  then show ?thesis by (auto simp: first_at_def)
next
  case (Suc k)
  have "(\<forall>j<Suc k. \<not> P ((v # vs) ! j)) \<longleftrightarrow> \<not> P v \<and> (\<forall>j<k. \<not> P (vs ! j))"
    by (auto simp: less_Suc_eq_0_disj)
  with Suc show ?thesis by (auto simp: first_at_def)
qed

text \<open>A loop that returns has stopped at the first sample that fails its test.\<close>

lemma poll_while_ends:
  assumes "keeps_ADMUX isr"
  shows "poll_while again isr pin s env = Some (s', env') \<Longrightarrow>
    \<exists>i. first_at (\<lambda>v. \<not> again v) (seen pin s env) i \<and> env' = drop (Suc i) env
       \<and> ADC s' = seen pin s env ! i"
proof (induction env arbitrary: s)
  case Nil
  then show ?case by simp
next
  case (Cons c env)
  obtain v s1 where r: "readADC isr pin c s = (v, s1)" by (cases "readADC isr pin c s")
  have v: "v = fst (readADC isr pin c s)" and s1: "s1 = snd (readADC isr pin c s)"
    using r by simp_all
  have sn: "seen pin s (c # env) = v # seen pin s env"
    using seen_Cons [of pin s c env isr] v by simp
  show ?case
  proof (cases "again v")
    case True
    with Cons.prems r have "poll_while again isr pin s1 env = Some (s', env')" by simp
    from Cons.IH [OF this] obtain i where
      i: "first_at (\<lambda>v. \<not> again v) (seen pin s1 env) i" "env' = drop (Suc i) env"
         "ADC s' = seen pin s1 env ! i" by blast
    have "seen pin s1 env = seen pin s env" using seen_readADC [OF assms] s1 by simp
    with i True sn have "first_at (\<lambda>v. \<not> again v) (seen pin s (c # env)) (Suc i)
        \<and> env' = drop (Suc (Suc i)) (c # env) \<and> ADC s' = seen pin s (c # env) ! Suc i"
      by (simp add: first_at_Cons)
    then show ?thesis by blast
  next
    case False
    with Cons.prems r have "s' = s1" "env' = env" by simp_all
    with False sn s1 v have "first_at (\<lambda>v. \<not> again v) (seen pin s (c # env)) 0
        \<and> env' = drop (Suc 0) (c # env) \<and> ADC s' = seen pin s (c # env) ! 0"
      by (simp add: first_at_Cons readADC_ADC)
    then show ?thesis by blast
  qed
qed

text \<open>A loop returns as soon as a sample fails its test.\<close>

lemma poll_while_returns:
  assumes "keeps_ADMUX isr"
  shows "first_at (\<lambda>v. \<not> again v) (seen pin s env) i \<Longrightarrow>
    \<exists>s'. poll_while again isr pin s env = Some (s', drop (Suc i) env)"
proof (induction env arbitrary: s i)
  case Nil
  then show ?case by (simp add: first_at_def seen_def)
next
  case (Cons c env)
  obtain v s1 where r: "readADC isr pin c s = (v, s1)" by (cases "readADC isr pin c s")
  have v: "v = fst (readADC isr pin c s)" and s1: "s1 = snd (readADC isr pin c s)"
    using r by simp_all
  have sn: "seen pin s (c # env) = v # seen pin s env"
    using seen_Cons [of pin s c env isr] v by simp
  show ?case
  proof (cases "again v")
    case True
    with Cons.prems sn obtain k where
      k: "i = Suc k" "first_at (\<lambda>v. \<not> again v) (seen pin s env) k"
      by (auto simp: first_at_Cons)
    have "seen pin s1 env = seen pin s env" using seen_readADC [OF assms] s1 by simp
    with k have "first_at (\<lambda>v. \<not> again v) (seen pin s1 env) k" by simp
    from Cons.IH [OF this] obtain s' where
      "poll_while again isr pin s1 env = Some (s', drop (Suc k) env)" by blast
    with True r k show ?thesis by simp
  next
    case False
    with Cons.prems sn have "i = 0" by (simp add: first_at_Cons)
    with False r show ?thesis by simp
  qed
qed

lemma poll_while_iff:
  assumes "keeps_ADMUX isr"
  shows "(\<exists>s'. poll_while again isr pin s env = Some (s', env')) \<longleftrightarrow>
    (\<exists>i. first_at (\<lambda>v. \<not> again v) (seen pin s env) i \<and> env' = drop (Suc i) env)"
proof
  assume "\<exists>s'. poll_while again isr pin s env = Some (s', env')"
  then obtain s' where "poll_while again isr pin s env = Some (s', env')" ..
  from poll_while_ends [OF assms this] show
    "\<exists>i. first_at (\<lambda>v. \<not> again v) (seen pin s env) i \<and> env' = drop (Suc i) env"
    by blast
next
  assume "\<exists>i. first_at (\<lambda>v. \<not> again v) (seen pin s env) i \<and> env' = drop (Suc i) env"
  then obtain i where "first_at (\<lambda>v. \<not> again v) (seen pin s env) i"
    and "env' = drop (Suc i) env" by blast
  with poll_while_returns [OF assms, of again pin s env i]
  show "\<exists>s'. poll_while again isr pin s env = Some (s', env')" by simp
qed

section \<open>The example runs\<close>

lemma crossing_capacitance_demo:
  "crossing_capacitance idle demo_capacitance = Some (crossed_capacitance, [level 0 9])"
  by (simp add: crossing_capacitance_def discharge_capacitance_def charge_capacitance_def
      demo_capacitance_def idle_def level_def crossed_capacitance_def
      pin_capacitance_def pin_charge_def readADC_eval elapse_below_wrap elapse_stopped
      timer_running_def PIN_LOW_def PIN_HIGH_def logical_not_def startTimer1_def
      initTimer1_def CS11_def CS10_def)

lemma crossing_resistance_demo:
  "crossing_resistance idle demo_resistance = Some (crossed_resistance, [level 0 9])"
  by (simp add: crossing_resistance_def discharge_resistance_def charge_resistance_def
      demo_resistance_def idle_def level_def crossed_resistance_def
      pin_resistance_def pin_charge_def readADC_eval elapse_below_wrap elapse_stopped
      timer_running_def PIN_LOW_def PIN_HIGH_def logical_not_def startTimer1_def
      initTimer1_def CS11_def CS10_def)

lemma calculateCapacitance_demo:
  "calculateCapacitance idle demo_capacitance = Some (2 / 625, measured_capacitance, [level 0 9])"
  by (simp add: calculateCapacitance_def crossing_capacitance_demo)
     (simp add: crossed_capacitance_def measured_capacitance_def getMilliseconds_def
      stopTimer1_def PIN_LOW_def logical_not_def pin_charge_def)

lemma calculateResistance_demo:
  "calculateResistance idle demo_resistance = Some (1 / 3125, measured_resistance, [level 0 9])"
  by (simp add: calculateResistance_def crossing_resistance_demo)
     (simp add: crossed_resistance_def measured_resistance_def getMilliseconds_def
      stopTimer1_def PIN_LOW_def logical_not_def pin_charge_def)

section \<open>Elapsed-time tracker: the overflow handler\<close>

text \<open>
  Claim C1. Every overflow event is to add the full-range duration 65535/250 ms to the
  accumulator, whatever the counter holds when the handler runs. The handler of
  \<open>Resistance.ino\<close> does (\<open>ISR_adds_full_range\<close>); the handler of the calibration sketch
  adds the counter's value at the moment it runs instead (\<open>ISR_part000_adds_counter\<close>).
  The state \<open>wrapping\<close> is reached 65535 ticks after the sketch's \<open>startTimer1\<close>
  (\<open>wrapping_reached_part000\<close>). At its overflow event the counter has just wrapped to
  zero, so the sketch's handler leaves the accumulator as it was, where the handler of
  \<open>Resistance.ino\<close> adds 65535/250.
\<close>

theorem part000_overflow_handler_adds_counter:
  "timer1_overflow (hw_irq ISR_TIMER1_OVF_part000 (hw_tick wrapping)) = timer1_overflow wrapping
   \<and> timer1_overflow (hw_irq ISR_TIMER1_OVF (hw_tick wrapping))
       = timer1_overflow wrapping + 65535 / 250"
  by (simp add: hw_irq_def hw_tick_def wrapping_def timer_running_def
      ISR_TIMER1_OVF_part000_def ISR_TIMER1_OVF_def)

section \<open>Elapsed-time tracker: monotonicity\<close>

lemma served_hw_tick: "served_ms s \<le> served_ms (hw_tick s)"
proof (cases "timer_running s \<and> \<not> TOV1 s")
  case False
  then show ?thesis by (auto simp: served_ms_def hw_tick_def)
next
  case True
  show ?thesis
  proof (cases "TCNT1 s = 0xFFFF")
    case True
    with \<open>timer_running s \<and> \<not> TOV1 s\<close> show ?thesis
      by (simp add: served_ms_def hw_tick_def getMilliseconds_def)
  next
    case False
    then have "unat (TCNT1 s + 1) = Suc (unat (TCNT1 s))" by (rule unat_succ_u16)
    with False \<open>timer_running s \<and> \<not> TOV1 s\<close> show ?thesis
      by (simp add: served_ms_def hw_tick_def getMilliseconds_def del: of_nat_unat)
  qed
qed

lemma served_hw_irq: "served_ms s \<le> served_ms (hw_irq ISR_TIMER1_OVF s)"
  by (simp add: served_ms_def hw_irq_def ISR_TIMER1_OVF_def getMilliseconds_def
      del: of_nat_unat)

lemma served_run: "served_ms s \<le> served_ms (run ISR_TIMER1_OVF evs s)"
proof (induction evs arbitrary: s)
  case Nil
  then show ?case by simp
next
  case (Cons e evs)
  have "served_ms s \<le> served_ms (fire ISR_TIMER1_OVF e s)"
    by (cases e) (simp_all add: served_hw_tick served_hw_irq)
  also have "\<dots> \<le> served_ms (run ISR_TIMER1_OVF evs (fire ISR_TIMER1_OVF e s))"
    by (rule Cons.IH)
  finally show ?case by simp
qed

text \<open>
  When the handler is served right after each overflow, as during a call of \<open>readADC\<close> in
  the model, no overflow is left pending and the reading does not decrease.
\<close>

lemma elapse_run: "elapse isr n s = run isr (concat (replicate n [Tick, Irq])) s"
  by (induction n arbitrary: s) simp_all

lemma served_after_step:
  "TIMSK1 s AND 1 \<noteq> 0 \<Longrightarrow>
   \<not> TOV1 (hw_irq ISR_TIMER1_OVF (hw_tick s)) \<and>
   TIMSK1 (hw_irq ISR_TIMER1_OVF (hw_tick s)) = TIMSK1 s"
  by (simp add: hw_irq_def hw_tick_def ISR_TIMER1_OVF_def)

lemma served_after_elapse:
  "TIMSK1 s AND 1 \<noteq> 0 \<Longrightarrow> \<not> TOV1 s \<Longrightarrow> \<not> TOV1 (elapse ISR_TIMER1_OVF n s)"
proof (induction n arbitrary: s)
  case 0
  then show ?case by simp
next
  case (Suc n)
  from served_after_step [OF Suc.prems(1)] Suc.prems(1)
  have "TIMSK1 (hw_irq ISR_TIMER1_OVF (hw_tick s)) AND 1 \<noteq> 0"
    and "\<not> TOV1 (hw_irq ISR_TIMER1_OVF (hw_tick s))" by simp_all
  then show ?case by (simp add: Suc.IH)
qed

lemma getMilliseconds_elapse_mono:
  assumes "TIMSK1 s AND 1 \<noteq> 0" and "\<not> TOV1 s"
  shows "getMilliseconds s \<le> getMilliseconds (elapse ISR_TIMER1_OVF n s)"
proof -
  have "\<not> TOV1 (elapse ISR_TIMER1_OVF n s)" using assms by (rule served_after_elapse)
  with served_run [of s "concat (replicate n [Tick, Irq])"] assms(2) show ?thesis
    by (simp add: served_ms_def elapse_run)
qed

text \<open>
  In the calibration sketch the reading drops at every overflow even after the handler has
  run, because its handler adds the wrapped counter and not the full range.
\<close>

lemma part000_reading_drops_at_overflow:
  "getMilliseconds (run ISR_TIMER1_OVF_part000 [Tick, Irq] wrapping) = 0 \<and>
   getMilliseconds wrapping = 65535 / 250"
  by (simp add: wrapping_def hw_tick_def hw_irq_def timer_running_def getMilliseconds_def
      ISR_TIMER1_OVF_part000_def)

text \<open>
  Claim C2, as stated, fails: ticks, handler executions and reads interleave freely, and
  nothing in the code keeps a read from falling between the wrap of the counter and the
  execution of the handler. In the state \<open>wrapping\<close>, which is reached 65535 ticks after
  \<open>startTimer1\<close> (\<open>wrapping_reached\<close>), a first read returns 262.14 ms; after one more
  tick the counter is zero and the handler has not run yet, and a second read returns 0.
\<close>

theorem read_between_wrap_and_handler_decreases:
  "getMilliseconds (run ISR_TIMER1_OVF [Tick] wrapping) < getMilliseconds wrapping"
  by (simp add: wrapping_def hw_tick_def timer_running_def getMilliseconds_def)

text \<open>
  Claim C2, amended. In \<open>Resistance.ino\<close>, along any interleaving of ticks and handler
  executions, two reads of \<open>getMilliseconds\<close> that are each taken while no overflow is
  waiting for its handler, and that are not themselves interrupted, satisfy
  \<open>read2 \<ge> read1\<close>.
\<close>

theorem getMilliseconds_monotone_when_served:
  "\<not> TOV1 s \<Longrightarrow> \<not> TOV1 (run ISR_TIMER1_OVF evs s) \<Longrightarrow>
   getMilliseconds s \<le> getMilliseconds (run ISR_TIMER1_OVF evs s)"
  using served_run [of s evs] by (simp add: served_ms_def)

theorem getMilliseconds_monotone_when_served_witness:
  "\<not> TOV1 wrapping \<and> \<not> TOV1 (run ISR_TIMER1_OVF [Tick, Irq, Tick] wrapping) \<and>
   getMilliseconds wrapping \<le> getMilliseconds (run ISR_TIMER1_OVF [Tick, Irq, Tick] wrapping)"
proof -
  have a: "\<not> TOV1 wrapping" by (simp add: wrapping_def)
  have b: "\<not> TOV1 (run ISR_TIMER1_OVF [Tick, Irq, Tick] wrapping)"
    by (simp add: wrapping_def hw_tick_def hw_irq_def timer_running_def ISR_TIMER1_OVF_def)
  from a b getMilliseconds_monotone_when_served [OF a b] show ?thesis by simp
qed

section \<open>Elapsed-time tracker: reads that race the handler\<close>

lemma accumulator_hw_tick: "timer1_overflow (hw_tick s) = timer1_overflow s"
  by (simp add: hw_tick_def)

text \<open>
  Claim C9, as stated, fails: the code does not guard the read. In the state \<open>wrapping\<close>
  the consistent value before the overflow and the consistent value after it are both
  262.14 ms. A read whose two loads are separated by the wrap and the handler returns 0
  when the accumulator is loaded first, and 524.28 when the counter is loaded first: a
  mixed value in either order.
\<close>

theorem interrupted_read_is_mixed:
  "getMilliseconds_between ISR_TIMER1_OVF AccumulatorFirst [Tick, Irq] wrapping = 0 \<and>
   getMilliseconds_between ISR_TIMER1_OVF CounterFirst [Tick, Irq] wrapping = 131070 / 250 \<and>
   getMilliseconds wrapping = 65535 / 250 \<and>
   getMilliseconds (run ISR_TIMER1_OVF [Tick, Irq] wrapping) = 65535 / 250"
  by (simp add: getMilliseconds_between_def wrapping_def hw_tick_def hw_irq_def
      timer_running_def getMilliseconds_def ISR_TIMER1_OVF_def)

text \<open>
  Every execution of the handler of \<open>Resistance.ino\<close> adds 65535/250 to the accumulator,
  and nothing else changes it.
\<close>

lemma accumulator_run:
  "timer1_overflow (run ISR_TIMER1_OVF evs s)
     = timer1_overflow s + real (handler_runs ISR_TIMER1_OVF evs s) * (65535 / 250)"
proof (induction evs arbitrary: s)
  case Nil
  then show ?case by simp
next
  case (Cons e evs)
  show ?case
  proof (cases e)
    case Tick
    with Cons [of "hw_tick s"] show ?thesis by (simp add: accumulator_hw_tick)
  next
    case Irq
    have "timer1_overflow (hw_irq ISR_TIMER1_OVF s)
        = timer1_overflow s + (if TOV1 s \<and> TIMSK1 s AND 1 \<noteq> 0 then 65535 / 250 else 0)"
      by (simp add: hw_irq_def ISR_TIMER1_OVF_def)
    with Irq Cons [of "hw_irq ISR_TIMER1_OVF s"] show ?thesis by (simp add: algebra_simps)
  qed
qed

lemma wrapped_reached: "run ISR_TIMER1_OVF [Tick, Irq] wrapping = wrapped"
  by (simp add: wrapping_def wrapped_def hw_tick_def hw_irq_def timer_running_def
      ISR_TIMER1_OVF_def)

text \<open>
  Claim C9, amended. A read of elapsed time both of whose loads are taken while no overflow
  is waiting for its handler, and between whose loads the handler does not execute, returns
  a consistent value of the accumulator-plus-tick-count computation: the value before the
  events that fell between its loads when the tick counter is loaded first, the value after
  them when the accumulator is loaded first, both of states with no overflow in flight.
  The code does not keep the handler from executing between the two loads; each such
  execution puts the result off that value by 65535/250 ms.
\<close>

theorem uninterrupted_read_is_consistent:
  "\<not> TOV1 s \<Longrightarrow> \<not> TOV1 (run ISR_TIMER1_OVF evs s) \<Longrightarrow>
   (handler_runs ISR_TIMER1_OVF evs s = 0 \<longrightarrow>
      getMilliseconds_between ISR_TIMER1_OVF AccumulatorFirst evs s
        = getMilliseconds (run ISR_TIMER1_OVF evs s) \<and>
      getMilliseconds_between ISR_TIMER1_OVF CounterFirst evs s = getMilliseconds s)
   \<and> getMilliseconds_between ISR_TIMER1_OVF AccumulatorFirst evs s
        = getMilliseconds (run ISR_TIMER1_OVF evs s)
          - real (handler_runs ISR_TIMER1_OVF evs s) * (65535 / 250)
   \<and> getMilliseconds_between ISR_TIMER1_OVF CounterFirst evs s
        = getMilliseconds s + real (handler_runs ISR_TIMER1_OVF evs s) * (65535 / 250)"
  by (simp add: getMilliseconds_between_def getMilliseconds_def accumulator_run)

theorem uninterrupted_read_is_consistent_witness:
  "\<not> TOV1 wrapped \<and> \<not> TOV1 (run ISR_TIMER1_OVF [Tick, Irq, Tick] wrapped)
   \<and> handler_runs ISR_TIMER1_OVF [Tick, Irq, Tick] wrapped = 0
   \<and> getMilliseconds_between ISR_TIMER1_OVF AccumulatorFirst [Tick, Irq, Tick] wrapped
       = getMilliseconds (run ISR_TIMER1_OVF [Tick, Irq, Tick] wrapped)
   \<and> getMilliseconds (run ISR_TIMER1_OVF [Tick, Irq, Tick] wrapped) = 65537 / 250
   \<and> getMilliseconds_between ISR_TIMER1_OVF CounterFirst [Tick, Irq, Tick] wrapped
       = getMilliseconds wrapped
   \<and> getMilliseconds wrapped = 65535 / 250
   \<and> \<not> TOV1 wrapping \<and> \<not> TOV1 (run ISR_TIMER1_OVF [Tick, Irq] wrapping)
   \<and> handler_runs ISR_TIMER1_OVF [Tick, Irq] wrapping = 1
   \<and> getMilliseconds_between ISR_TIMER1_OVF AccumulatorFirst [Tick, Irq] wrapping
       = getMilliseconds (run ISR_TIMER1_OVF [Tick, Irq] wrapping) - 65535 / 250
   \<and> getMilliseconds_between ISR_TIMER1_OVF CounterFirst [Tick, Irq] wrapping
       = getMilliseconds wrapping + 65535 / 250"
proof -
  have a: "\<not> TOV1 wrapped" by (simp add: wrapped_def)
  have b: "\<not> TOV1 (run ISR_TIMER1_OVF [Tick, Irq, Tick] wrapped)"
    by (simp add: wrapped_def hw_tick_def hw_irq_def timer_running_def)
  have h: "handler_runs ISR_TIMER1_OVF [Tick, Irq, Tick] wrapped = 0"
    by (simp add: wrapped_def hw_tick_def hw_irq_def timer_running_def)
  have g: "getMilliseconds (run ISR_TIMER1_OVF [Tick, Irq, Tick] wrapped) = 65537 / 250"
    by (simp add: wrapped_def hw_tick_def hw_irq_def timer_running_def getMilliseconds_def)
  have g0: "getMilliseconds wrapped = 65535 / 250"
    by (simp add: wrapped_def getMilliseconds_def)
  have a': "\<not> TOV1 wrapping" by (simp add: wrapping_def)
  have b': "\<not> TOV1 (run ISR_TIMER1_OVF [Tick, Irq] wrapping)"
    by (simp only: wrapped_reached) (simp add: wrapped_def)
  have h': "handler_runs ISR_TIMER1_OVF [Tick, Irq] wrapping = 1"
    by (simp add: wrapping_def hw_tick_def hw_irq_def timer_running_def)
  note w = uninterrupted_read_is_consistent [OF a b]
  note w' = uninterrupted_read_is_consistent [OF a' b']
  have c1: "getMilliseconds_between ISR_TIMER1_OVF AccumulatorFirst [Tick, Irq, Tick] wrapped
       = getMilliseconds (run ISR_TIMER1_OVF [Tick, Irq, Tick] wrapped)"
    and c2: "getMilliseconds_between ISR_TIMER1_OVF CounterFirst [Tick, Irq, Tick] wrapped
       = getMilliseconds wrapped"
    using w [THEN conjunct1, THEN mp, OF h] by simp_all
  have d1: "getMilliseconds_between ISR_TIMER1_OVF AccumulatorFirst [Tick, Irq] wrapping
       = getMilliseconds (run ISR_TIMER1_OVF [Tick, Irq] wrapping) - 65535 / 250"
    using w' [THEN conjunct2, THEN conjunct1] by (simp only: h' of_nat_1 mult_1)
  have d2: "getMilliseconds_between ISR_TIMER1_OVF CounterFirst [Tick, Irq] wrapping
       = getMilliseconds wrapping + 65535 / 250"
    using w' [THEN conjunct2, THEN conjunct2] by (simp only: h' of_nat_1 mult_1)
  from a b h c1 g c2 g0 a' b' h' d1 d2 show ?thesis by (intro conjI)
qed

section \<open>Analog sampler\<close>

text \<open>
  Claim C5. \<open>readADC(c)\<close> is to convert channel \<open>c\<close> whatever was selected before. The code
  ors the pin into \<open>ADMUX\<close> and never clears the bits of the previous selection. After
  \<open>readADC(pin_resistance)\<close> (channel 1), the call \<open>readADC(pin_voltage)\<close> (channel 2)
  selects channel 3 and returns its sample, 300 on the input \<open>by_channel\<close>, where channel 2
  holds 200.
\<close>

theorem readADC_keeps_previous_channel_bits:
  "ADMUX (snd (readADC ISR_TIMER1_OVF pin_voltage by_channel
                 (snd (readADC ISR_TIMER1_OVF pin_resistance by_channel idle)))) AND 0x0F = 3
   \<and> fst (readADC ISR_TIMER1_OVF pin_voltage by_channel
            (snd (readADC ISR_TIMER1_OVF pin_resistance by_channel idle))) = 300
   \<and> analog by_channel (of_nat pin_voltage) = 200"
  by (simp add: readADC_eval by_channel_def idle_def pin_voltage_def pin_resistance_def)

section \<open>Transient measurement engine: the charge phase\<close>

text \<open>
  Claim C3, as stated, fails: no charge loop of the repository uses the threshold 646. The
  loop of \<open>calculateCapacitance\<close> polls on after a sample of 646, and the loop of
  \<open>getTimeConstant\<close> in the calibration sketch ends at a sample of 645, which is below
  646.
\<close>

theorem charge_thresholds_differ_from_646:
  "seen pin_capacitance idle [level 0 646] = [646] \<and>
   charge_capacitance idle [level 0 646] = None \<and>
   seen 0 idle [level 0 645, level 0 1023] = [645, 1023] \<and>
   map_option snd (charge_part000 idle [level 0 645, level 0 1023]) = Some [level 0 1023]"
  by (simp add: charge_capacitance_def charge_part000_def seen_def readADC_eval level_def)

text \<open>
  Claim C3, amended. The charge-phase polling loop ends at exactly the first sample that
  fails the loop's own test, and leaves every later conversion unconsumed: the first sample
  \<open>v\<close> with \<open>v \<ge> 647\<close> in \<open>calculateCapacitance\<close>, with \<open>1023 - v \<ge> 647\<close> (unsigned
  16-bit) in \<open>calculateResistance\<close>, and with \<open>v \<ge> 645\<close> in \<open>getTimeConstant\<close>. No
  earlier and no later sample ends the loop, and a loop none of whose samples fails the test
  does not end.
\<close>

theorem charge_loops_end_at_first_crossing:
  "((\<exists>s'. charge_capacitance s env = Some (s', env')) \<longleftrightarrow>
      (\<exists>i. first_at (\<lambda>v. 647 \<le> v) (seen pin_capacitance s env) i \<and> env' = drop (Suc i) env))
   \<and> ((\<exists>s'. charge_resistance s env = Some (s', env')) \<longleftrightarrow>
      (\<exists>i. first_at (\<lambda>v. 647 \<le> 1023 - v) (seen pin_resistance s env) i
           \<and> env' = drop (Suc i) env))
   \<and> ((\<exists>s'. charge_part000 s env = Some (s', env')) \<longleftrightarrow>
      (\<exists>i. first_at (\<lambda>v. 645 \<le> v) (seen 0 s env) i \<and> env' = drop (Suc i) env))"
  unfolding charge_capacitance_def charge_resistance_def charge_part000_def
  by (simp add: poll_while_iff [OF keeps_ADMUX_ISR] poll_while_iff [OF keeps_ADMUX_ISR_part000]
      not_less)

theorem charge_loops_end_at_first_crossing_witness:
  "first_at (\<lambda>v. 647 \<le> v) (seen pin_capacitance idle [level 1 100, level 1 647, level 1 5]) 1
   \<and> (\<exists>s'. charge_capacitance idle [level 1 100, level 1 647, level 1 5]
             = Some (s', [level 1 5]))
   \<and> first_at (\<lambda>v. 647 \<le> 1023 - v)
        (seen pin_resistance idle [level 1 900, level 1 376, level 1 5]) 1
   \<and> (\<exists>s'. charge_resistance idle [level 1 900, level 1 376, level 1 5]
             = Some (s', [level 1 5]))
   \<and> first_at (\<lambda>v. 645 \<le> v) (seen 0 idle [level 1 100, level 1 645, level 1 5]) 1
   \<and> (\<exists>s'. charge_part000 idle [level 1 100, level 1 645, level 1 5] = Some (s', [level 1 5]))"
proof -
  have a: "first_at (\<lambda>v. 647 \<le> v)
      (seen pin_capacitance idle [level 1 100, level 1 647, level 1 5]) 1"
    by (simp add: seen_level seen_Nil first_at_def)
  have b: "first_at (\<lambda>v. 647 \<le> 1023 - v)
      (seen pin_resistance idle [level 1 900, level 1 376, level 1 5]) 1"
    by (simp add: seen_level seen_Nil first_at_def)
  have c: "first_at (\<lambda>v. 645 \<le> v) (seen 0 idle [level 1 100, level 1 645, level 1 5]) 1"
    by (simp add: seen_level seen_Nil first_at_def)
  have a': "\<exists>i. first_at (\<lambda>v. 647 \<le> v)
        (seen pin_capacitance idle [level 1 100, level 1 647, level 1 5]) i
      \<and> [level 1 5] = drop (Suc i) [level 1 100, level 1 647, level 1 5]"
    using a by (intro exI [of _ 1]) simp
  have b': "\<exists>i. first_at (\<lambda>v. 647 \<le> 1023 - v)
        (seen pin_resistance idle [level 1 900, level 1 376, level 1 5]) i
      \<and> [level 1 5] = drop (Suc i) [level 1 900, level 1 376, level 1 5]"
    using b by (intro exI [of _ 1]) simp
  have c': "\<exists>i. first_at (\<lambda>v. 645 \<le> v)
        (seen 0 idle [level 1 100, level 1 645, level 1 5]) i
      \<and> [level 1 5] = drop (Suc i) [level 1 100, level 1 645, level 1 5]"
    using c by (intro exI [of _ 1]) simp
  from a b c a' b' c'
    charge_loops_end_at_first_crossing
      [of idle "[level 1 100, level 1 647, level 1 5]" "[level 1 5]"]
    charge_loops_end_at_first_crossing
      [of idle "[level 1 900, level 1 376, level 1 5]" "[level 1 5]"]
    charge_loops_end_at_first_crossing
      [of idle "[level 1 100, level 1 645, level 1 5]" "[level 1 5]"]
  show ?thesis by blast
qed

section \<open>Transient measurement engine: the discharge phase\<close>

text \<open>
  Claim C4, as stated, fails: the discharge loop of \<open>calculateResistance\<close> tests the sample
  itself, as the loop of \<open>calculateCapacitance\<close> does, and not its complement. On a first
  sample of 1023, whose complement is zero, it polls on, and ends at the second sample, 0.
\<close>

theorem discharge_resistance_ignores_complement:
  "seen pin_resistance idle [level 0 1023, level 0 0] = [1023, 0] \<and>
   (1023 :: u16) - 1023 = 0 \<and>
   discharge_resistance idle [level 0 1023] = None \<and>
   map_option snd (discharge_resistance idle [level 0 1023, level 0 0]) = Some []"
  by (simp add: discharge_resistance_def seen_def readADC_eval level_def)

text \<open>
  Claim C4, amended. In both variants of the transient measurement the discharge phase polls
  the Sampler until the sample itself reaches zero: the loop ends at exactly the first sample
  equal to zero. The resistance variant takes the complement of the sample
  (\<open>1023 - sample\<close>) only in the test of its charge phase.
\<close>

theorem discharge_loops_end_at_first_zero:
  "((\<exists>s'. discharge_capacitance s env = Some (s', env')) \<longleftrightarrow>
      (\<exists>i. first_at (\<lambda>v. v = 0) (seen pin_capacitance s env) i \<and> env' = drop (Suc i) env))
   \<and> ((\<exists>s'. discharge_resistance s env = Some (s', env')) \<longleftrightarrow>
      (\<exists>i. first_at (\<lambda>v. v = 0) (seen pin_resistance s env) i \<and> env' = drop (Suc i) env))"
  unfolding discharge_capacitance_def discharge_resistance_def
  by (simp add: poll_while_iff [OF keeps_ADMUX_ISR])

theorem discharge_loops_end_at_first_zero_witness:
  "first_at (\<lambda>v. v = 0) (seen pin_capacitance idle [level 1 1023, level 1 0, level 1 5]) 1
   \<and> (\<exists>s'. discharge_capacitance idle [level 1 1023, level 1 0, level 1 5]
             = Some (s', [level 1 5]))
   \<and> first_at (\<lambda>v. v = 0) (seen pin_resistance idle [level 1 1023, level 1 0, level 1 5]) 1
   \<and> (\<exists>s'. discharge_resistance idle [level 1 1023, level 1 0, level 1 5]
             = Some (s', [level 1 5]))"
proof -
  have a: "first_at (\<lambda>v. v = 0) (seen pin idle [level 1 1023, level 1 0, level 1 5]) 1" for pin
    by (simp add: seen_level seen_Nil first_at_def)
  have a': "\<exists>i. first_at (\<lambda>v. v = 0) (seen pin idle [level 1 1023, level 1 0, level 1 5]) i
      \<and> [level 1 5] = drop (Suc i) [level 1 1023, level 1 0, level 1 5]" for pin
    using a [of pin] by (intro exI [of _ 1]) simp
  from a [of pin_capacitance] a [of pin_resistance] a' [of pin_capacitance] a' [of pin_resistance]
    discharge_loops_end_at_first_zero
      [of idle "[level 1 1023, level 1 0, level 1 5]" "[level 1 5]"]
  show ?thesis by blast
qed

section \<open>Transient measurement engine: the time constant\<close>

text \<open>A stopped tracker with no overflow pending stays so through the discharge phase.\<close>

lemma readADC_stopped:
  "\<not> timer_running s \<Longrightarrow> \<not> TOV1 s \<Longrightarrow>
   \<not> timer_running (snd (readADC isr pin c s)) \<and> \<not> TOV1 (snd (readADC isr pin c s))"
  by (simp add: readADC_eval elapse_stopped timer_running_def)

lemma poll_while_stopped:
  "\<not> timer_running s \<Longrightarrow> \<not> TOV1 s \<Longrightarrow> poll_while again isr pin s env = Some (s', env') \<Longrightarrow>
   \<not> timer_running s' \<and> \<not> TOV1 s'"
proof (induction env arbitrary: s)
  case Nil
  then show ?case by simp
next
  case (Cons c env)
  obtain v s1 where r: "readADC isr pin c s = (v, s1)" by (cases "readADC isr pin c s")
  with readADC_stopped [OF Cons.prems(1,2), of isr pin c]
  have s1: "\<not> timer_running s1" "\<not> TOV1 s1" by simp_all
  show ?case
  proof (cases "again v")
    case True
    with Cons.prems(3) r have "poll_while again isr pin s1 env = Some (s', env')" by simp
    from Cons.IH [OF s1 this] show ?thesis .
  next
    case False
    with Cons.prems(3) r have "s' = s1" by simp
    with s1 show ?thesis by simp
  qed
qed

lemma poll_while_ADMUX:
  assumes "keeps_ADMUX isr"
  shows "poll_while again isr pin s env = Some (s', env') \<Longrightarrow> ADMUX s' = ADMUX s OR of_nat pin"
proof (induction env arbitrary: s)
  case Nil
  then show ?case by simp
next
  case (Cons c env)
  obtain v s1 where r: "readADC isr pin c s = (v, s1)" by (cases "readADC isr pin c s")
  with readADC_ADMUX [OF assms, of pin c s] have s1: "ADMUX s1 = ADMUX s OR of_nat pin" by simp
  show ?case
  proof (cases "again v")
    case True
    with Cons.prems r have "poll_while again isr pin s1 env = Some (s', env')" by simp
    from Cons.IH [OF this] s1 show ?thesis by (simp add: or.assoc)
  next
    case False
    with Cons.prems r s1 show ?thesis by simp
  qed
qed

lemma seen_same_selection:
  "ADMUX t OR of_nat pin = ADMUX s OR of_nat pin \<Longrightarrow> seen pin t env = seen pin s env"
  by (simp add: seen_def)

text \<open>The tracker of \<open>Resistance.ino\<close>, tick by tick.\<close>

lemma of_nat_max_u16: "(of_nat n :: u16) = 0xFFFF \<longleftrightarrow> n mod 65536 = 65535"
proof -
  have "(of_nat n :: u16) = 0xFFFF \<longleftrightarrow> unat (of_nat n :: u16) = unat (0xFFFF :: u16)"
    by (simp only: word_unat_eq_iff)
  then show ?thesis by (simp add: unat_of_nat)
qed

lemma tracks_start: "\<not> TOV1 s \<Longrightarrow> tracks 0 ((startTimer1 s)\<lparr>PORTB := p\<rparr>)"
  by (simp add: tracks_def startTimer1_def initTimer1_def timer_running_def CS11_def CS10_def)

lemma tracks_step:
  assumes "tracks n s"
  shows "tracks (Suc n) (hw_irq ISR_TIMER1_OVF (hw_tick s))"
proof -
  from assms have rn: "timer_running s" and en: "TIMSK1 s AND 1 \<noteq> 0" and nov: "\<not> TOV1 s"
    and c: "TCNT1 s = of_nat n"
    and a: "timer1_overflow s = real (n div 65536) * (65535 / 250)"
    by (simp_all add: tracks_def)
  have w: "TCNT1 s = 0xFFFF \<longleftrightarrow> n mod 65536 = 65535"
    by (simp only: c of_nat_max_u16)
  have tick: "hw_tick s = s\<lparr>TCNT1 := TCNT1 s + 1, TOV1 := (n mod 65536 = 65535)\<rparr>"
    using rn nov by (simp only: hw_tick_def w if_True simp_thms)
  have nx: "TCNT1 s + 1 = of_nat (Suc n)" by (simp add: c)
  show ?thesis
  proof (cases "n mod 65536 = 65535")
    case True
    then have d: "Suc n div 65536 = Suc (n div 65536)" by (simp add: div_Suc mod_Suc)
    have "hw_irq ISR_TIMER1_OVF (hw_tick s)
        = s\<lparr>TCNT1 := TCNT1 s + 1, TOV1 := False,
             timer1_overflow := timer1_overflow s + 65535 / 250\<rparr>"
      using True en by (simp add: tick hw_irq_def ISR_TIMER1_OVF_def)
    then show ?thesis
      using rn en a by (simp only: tracks_def nx d) (simp add: timer_running_def algebra_simps)
  next
    case False
    then have d: "Suc n div 65536 = n div 65536" by (simp add: div_Suc mod_Suc)
    have "hw_irq ISR_TIMER1_OVF (hw_tick s) = s\<lparr>TCNT1 := TCNT1 s + 1, TOV1 := False\<rparr>"
      using False by (simp add: tick hw_irq_def)
    then show ?thesis
      using rn en a by (simp only: tracks_def nx d) (simp add: timer_running_def)
  qed
qed

lemma tracks_elapse: "tracks n s \<Longrightarrow> tracks (n + m) (elapse ISR_TIMER1_OVF m s)"
proof (induction m arbitrary: n s)
  case 0
  then show ?case by simp
next
  case (Suc m)
  from Suc.IH [OF tracks_step [OF Suc.prems]] show ?case by simp
qed

lemma tracks_readADC:
  assumes "tracks n s"
  shows "tracks (n + elapsed c) (snd (readADC ISR_TIMER1_OVF pin c s))"
proof -
  let ?t = "s\<lparr>ADMUX := ADMUX s OR of_nat pin, ADCSRA := ADCSRA s OR 0x40\<rparr>"
  have "tracks n ?t" using assms by (simp add: tracks_def timer_running_def)
  then have "tracks (n + elapsed c) (elapse ISR_TIMER1_OVF (elapsed c) ?t)"
    by (rule tracks_elapse)
  then show ?thesis by (simp add: readADC_eval tracks_def timer_running_def)
qed

lemma tracks_reading: "tracks n s \<Longrightarrow> getMilliseconds s = reading n"
  by (simp add: tracks_def getMilliseconds_def reading_def unat_of_nat add_divide_distrib
      del: of_nat_unat)

text \<open>
  A charge loop started \<open>n\<close> ticks after the tracker returns at the first sample that fails
  its test, with the tracker advanced by the ticks of the conversions it has consumed.
\<close>

lemma poll_while_tracks:
  "tracks n s \<Longrightarrow> first_at (\<lambda>v. \<not> again v) (seen pin s env) i \<Longrightarrow>
   \<exists>s'. poll_while again ISR_TIMER1_OVF pin s env = Some (s', drop (Suc i) env)
        \<and> tracks (n + ticks (take (Suc i) env)) s'"
proof (induction env arbitrary: s i n)
  case Nil
  then show ?case by (simp add: first_at_def seen_def)
next
  case (Cons c env)
  obtain v s1 where r: "readADC ISR_TIMER1_OVF pin c s = (v, s1)"
    by (cases "readADC ISR_TIMER1_OVF pin c s")
  have v: "v = fst (readADC ISR_TIMER1_OVF pin c s)"
    and s1: "s1 = snd (readADC ISR_TIMER1_OVF pin c s)" using r by simp_all
  have sn: "seen pin s (c # env) = v # seen pin s env"
    using seen_Cons [of pin s c env ISR_TIMER1_OVF] v by simp
  have t1: "tracks (n + elapsed c) s1" using tracks_readADC [OF Cons.prems(1)] s1 by simp
  show ?case
  proof (cases "again v")
    case True
    with Cons.prems(2) sn obtain k where
      k: "i = Suc k" "first_at (\<lambda>v. \<not> again v) (seen pin s env) k"
      by (auto simp: first_at_Cons)
    have "seen pin s1 env = seen pin s env"
      using seen_readADC [OF keeps_ADMUX_ISR] s1 by simp
    with k have "first_at (\<lambda>v. \<not> again v) (seen pin s1 env) k" by simp
    from Cons.IH [OF t1 this] obtain s' where
      "poll_while again ISR_TIMER1_OVF pin s1 env = Some (s', drop (Suc k) env)"
      "tracks (n + elapsed c + ticks (take (Suc k) env)) s'" by blast
    with True r k show ?thesis by (simp add: ticks_def add.assoc)
  next
    case False
    with Cons.prems(2) sn have "i = 0" by (simp add: first_at_Cons)
    with False r t1 show ?thesis by (simp add: ticks_def)
  qed
qed

text \<open>
  A measurement whose discharge phase sees its first zero at position \<open>i\<close> and whose
  charge phase then sees the first sample failing the test \<open>again\<close> at position \<open>j\<close>
  reaches the end of its charge loop. When it started from a stopped tracker with no
  overflow pending, the tracker then reads the ticks of the conversions the charge loop has
  consumed.
\<close>

lemma measurement_reaches_crossing:
  assumes zero: "first_at (\<lambda>v. v = 0) (seen pin s env) i"
    and cross: "first_at (\<lambda>v. \<not> again v) (seen pin s (drop (Suc i) env)) j"
  shows "\<exists>sx. (case poll_while (\<lambda>v. v \<noteq> 0) ISR_TIMER1_OVF pin (s\<lparr>PORTB := p\<rparr>) env of
                 None \<Rightarrow> None
               | Some (s1, env1) \<Rightarrow>
                   poll_while again ISR_TIMER1_OVF pin ((startTimer1 s1)\<lparr>PORTB := q s1\<rparr>) env1)
              = Some (sx, drop (Suc j) (drop (Suc i) env))
            \<and> (\<not> timer_running s \<and> \<not> TOV1 s \<longrightarrow>
                 getMilliseconds sx = reading (ticks (take (Suc j) (drop (Suc i) env))))"
proof -
  let ?s0 = "s\<lparr>PORTB := p\<rparr>"
  let ?rest = "drop (Suc i) env"
  have sel0: "seen pin ?s0 env = seen pin s env" by (rule seen_same_selection) simp
  from zero sel0 have "first_at (\<lambda>v. \<not> v \<noteq> 0) (seen pin ?s0 env) i" by simp
  from poll_while_returns [OF keeps_ADMUX_ISR this] obtain s1 where
    d: "poll_while (\<lambda>v. v \<noteq> 0) ISR_TIMER1_OVF pin ?s0 env = Some (s1, ?rest)" by blast
  have a1: "ADMUX s1 = ADMUX s OR of_nat pin"
    using poll_while_ADMUX [OF keeps_ADMUX_ISR d] by simp
  let ?s3 = "(startTimer1 s1)\<lparr>PORTB := q s1\<rparr>"
  have "ADMUX ?s3 = ADMUX s1" by (simp add: startTimer1_def initTimer1_def)
  with a1 have "seen pin ?s3 ?rest = seen pin s ?rest"
    by (intro seen_same_selection) (simp add: or.assoc)
  with cross have c3: "first_at (\<lambda>v. \<not> again v) (seen pin ?s3 ?rest) j" by simp
  from poll_while_returns [OF keeps_ADMUX_ISR c3] obtain sx where
    c: "poll_while again ISR_TIMER1_OVF pin ?s3 ?rest = Some (sx, drop (Suc j) ?rest)" by blast
  have "getMilliseconds sx = reading (ticks (take (Suc j) ?rest))"
    if stopped: "\<not> timer_running s \<and> \<not> TOV1 s"
  proof -
    have "\<not> timer_running ?s0" "\<not> TOV1 ?s0" using stopped by (simp_all add: timer_running_def)
    from poll_while_stopped [OF this d] have "\<not> TOV1 s1" by simp
    then have "tracks 0 ?s3" by (rule tracks_start)
    from poll_while_tracks [OF this c3] c have "tracks (ticks (take (Suc j) ?rest)) sx" by auto
    then show ?thesis by (rule tracks_reading)
  qed
  with d c show ?thesis by simp
qed

lemma crossing_capacitance_returns:
  assumes "first_at (\<lambda>v. v = 0) (seen pin_capacitance s env) i"
    and "first_at (\<lambda>v. 647 \<le> v) (seen pin_capacitance s (drop (Suc i) env)) j"
  shows "\<exists>sx. crossing_capacitance s env = Some (sx, drop (Suc j) (drop (Suc i) env))
            \<and> (\<not> timer_running s \<and> \<not> TOV1 s \<longrightarrow>
                 getMilliseconds sx = reading (ticks (take (Suc j) (drop (Suc i) env))))"
proof -
  from assms(2) have "first_at (\<lambda>v. \<not> v < 647) (seen pin_capacitance s (drop (Suc i) env)) j"
    by (simp add: not_less)
  note m = measurement_reaches_crossing [OF assms(1) this,
      where p = "PIN_LOW (PORTB s) pin_charge"
        and q = "\<lambda>s1. PIN_HIGH (PORTB (startTimer1 s1)) pin_charge"]
  show ?thesis
    unfolding crossing_capacitance_def discharge_capacitance_def charge_capacitance_def Let_def
    by (rule m)
qed

lemma crossing_resistance_returns:
  assumes "first_at (\<lambda>v. v = 0) (seen pin_resistance s env) i"
    and "first_at (\<lambda>v. 647 \<le> 1023 - v) (seen pin_resistance s (drop (Suc i) env)) j"
  shows "\<exists>sx. crossing_resistance s env = Some (sx, drop (Suc j) (drop (Suc i) env))
            \<and> (\<not> timer_running s \<and> \<not> TOV1 s \<longrightarrow>
                 getMilliseconds sx = reading (ticks (take (Suc j) (drop (Suc i) env))))"
proof -
  from assms(2)
  have "first_at (\<lambda>v. \<not> 1023 - v < 647) (seen pin_resistance s (drop (Suc i) env)) j"
    by (simp add: not_less)
  note m = measurement_reaches_crossing [OF assms(1) this,
      where p = "PIN_LOW (PORTB s) pin_charge"
        and q = "\<lambda>s1. PIN_HIGH (PORTB (startTimer1 s1)) pin_charge"]
  show ?thesis
    unfolding crossing_resistance_def discharge_resistance_def charge_resistance_def Let_def
    by (rule m)
qed

text \<open>
  Claim C6. When the samples of the discharge phase reach zero and those of the charge
  phase then cross the threshold, \<open>calculateCapacitance\<close> returns \<open>tau / 10\<close> and
  \<open>calculateResistance\<close> returns \<open>tau / 100\<close>, where \<open>tau\<close> is the elapsed time that
  \<open>getMilliseconds\<close> reads in the state in which the charge loop ends. In a measurement
  started from a stopped tracker with no overflow pending, \<open>tau\<close> is the milliseconds of
  the ticks that passed during the conversions of the charge phase, up to and including the
  one that crossed.
\<close>

theorem conversion_divides_tau:
  "(first_at (\<lambda>v. v = 0) (seen pin_capacitance s env) i \<longrightarrow>
    first_at (\<lambda>v. 647 \<le> v) (seen pin_capacitance s (drop (Suc i) env)) j \<longrightarrow>
      (\<exists>sx s'. crossing_capacitance s env = Some (sx, drop (Suc j) (drop (Suc i) env))
         \<and> calculateCapacitance s env
             = Some (getMilliseconds sx / 10, s', drop (Suc j) (drop (Suc i) env))
         \<and> (\<not> timer_running s \<and> \<not> TOV1 s \<longrightarrow>
              getMilliseconds sx = reading (ticks (take (Suc j) (drop (Suc i) env))))))
   \<and> (first_at (\<lambda>v. v = 0) (seen pin_resistance s env) i \<longrightarrow>
    first_at (\<lambda>v. 647 \<le> 1023 - v) (seen pin_resistance s (drop (Suc i) env)) j \<longrightarrow>
      (\<exists>sx s'. crossing_resistance s env = Some (sx, drop (Suc j) (drop (Suc i) env))
         \<and> calculateResistance s env
             = Some (getMilliseconds sx / 100, s', drop (Suc j) (drop (Suc i) env))
         \<and> (\<not> timer_running s \<and> \<not> TOV1 s \<longrightarrow>
              getMilliseconds sx = reading (ticks (take (Suc j) (drop (Suc i) env))))))"
proof (intro conjI impI)
  assume z: "first_at (\<lambda>v. v = 0) (seen pin_capacitance s env) i"
    and c: "first_at (\<lambda>v. 647 \<le> v) (seen pin_capacitance s (drop (Suc i) env)) j"
  from crossing_capacitance_returns [OF z c] obtain sx where
    "crossing_capacitance s env = Some (sx, drop (Suc j) (drop (Suc i) env))"
    "\<not> timer_running s \<and> \<not> TOV1 s \<longrightarrow>
       getMilliseconds sx = reading (ticks (take (Suc j) (drop (Suc i) env)))" by blast
  then show "\<exists>sx s'. crossing_capacitance s env = Some (sx, drop (Suc j) (drop (Suc i) env))
         \<and> calculateCapacitance s env
             = Some (getMilliseconds sx / 10, s', drop (Suc j) (drop (Suc i) env))
         \<and> (\<not> timer_running s \<and> \<not> TOV1 s \<longrightarrow>
              getMilliseconds sx = reading (ticks (take (Suc j) (drop (Suc i) env))))"
    by (simp add: calculateCapacitance_def Let_def)
next
  assume z: "first_at (\<lambda>v. v = 0) (seen pin_resistance s env) i"
    and c: "first_at (\<lambda>v. 647 \<le> 1023 - v) (seen pin_resistance s (drop (Suc i) env)) j"
  from crossing_resistance_returns [OF z c] obtain sx where
    "crossing_resistance s env = Some (sx, drop (Suc j) (drop (Suc i) env))"
    "\<not> timer_running s \<and> \<not> TOV1 s \<longrightarrow>
       getMilliseconds sx = reading (ticks (take (Suc j) (drop (Suc i) env)))" by blast
  then show "\<exists>sx s'. crossing_resistance s env = Some (sx, drop (Suc j) (drop (Suc i) env))
         \<and> calculateResistance s env
             = Some (getMilliseconds sx / 100, s', drop (Suc j) (drop (Suc i) env))
         \<and> (\<not> timer_running s \<and> \<not> TOV1 s \<longrightarrow>
              getMilliseconds sx = reading (ticks (take (Suc j) (drop (Suc i) env))))"
    by (simp add: calculateResistance_def Let_def)
qed

theorem conversion_divides_tau_witness:
  "\<not> timer_running idle \<and> \<not> TOV1 idle
   \<and> first_at (\<lambda>v. v = 0) (seen pin_capacitance idle exact_capacitance) 1
   \<and> first_at (\<lambda>v. 647 \<le> v) (seen pin_capacitance idle (drop (Suc 1) exact_capacitance)) 1
   \<and> (\<exists>sx s'. crossing_capacitance idle exact_capacitance = Some (sx, [level 0 9])
         \<and> getMilliseconds sx = 100
         \<and> calculateCapacitance idle exact_capacitance = Some (10, s', [level 0 9]))
   \<and> first_at (\<lambda>v. v = 0) (seen pin_resistance idle exact_resistance) 0
   \<and> first_at (\<lambda>v. 647 \<le> 1023 - v)
        (seen pin_resistance idle (drop (Suc 0) exact_resistance)) 1
   \<and> (\<exists>sx s'. crossing_resistance idle exact_resistance = Some (sx, [level 0 9])
         \<and> getMilliseconds sx = 100
         \<and> calculateResistance idle exact_resistance = Some (1, s', [level 0 9]))"
proof -
  have st: "\<not> timer_running idle" "\<not> TOV1 idle"
    by (simp_all add: idle_def timer_running_def)
  have zc: "first_at (\<lambda>v. v = 0) (seen pin_capacitance idle exact_capacitance) 1"
    by (simp add: exact_capacitance_def seen_level seen_Nil first_at_def)
  have cc: "first_at (\<lambda>v. 647 \<le> v)
      (seen pin_capacitance idle (drop (Suc 1) exact_capacitance)) 1"
    by (simp add: exact_capacitance_def seen_level seen_Nil first_at_def)
  have rc: "drop (Suc 1) (drop (Suc 1) exact_capacitance) = [level 0 9]"
    by (simp add: exact_capacitance_def)
  have tc: "reading (ticks (take (Suc 1) (drop (Suc 1) exact_capacitance))) = 100"
    by (simp add: exact_capacitance_def ticks_def level_def reading_def)
  have zr: "first_at (\<lambda>v. v = 0) (seen pin_resistance idle exact_resistance) 0"
    by (simp add: exact_resistance_def seen_level seen_Nil first_at_def)
  have cr: "first_at (\<lambda>v. 647 \<le> 1023 - v)
      (seen pin_resistance idle (drop (Suc 0) exact_resistance)) 1"
    by (simp add: exact_resistance_def seen_level seen_Nil first_at_def)
  have rr: "drop (Suc 1) (drop (Suc 0) exact_resistance) = [level 0 9]"
    by (simp add: exact_resistance_def)
  have tr: "reading (ticks (take (Suc 1) (drop (Suc 0) exact_resistance))) = 100"
    by (simp add: exact_resistance_def ticks_def level_def reading_def)
  from conversion_divides_tau [of idle exact_capacitance 1 1, THEN conjunct1, THEN mp,
      THEN mp, OF zc cc] st
  have c: "\<exists>sx s'. crossing_capacitance idle exact_capacitance = Some (sx, [level 0 9])
         \<and> getMilliseconds sx = 100
         \<and> calculateCapacitance idle exact_capacitance = Some (10, s', [level 0 9])"
    unfolding rc tc by auto
  from conversion_divides_tau [of idle exact_resistance 0 1, THEN conjunct2, THEN mp,
      THEN mp, OF zr cr] st
  have r: "\<exists>sx s'. crossing_resistance idle exact_resistance = Some (sx, [level 0 9])
         \<and> getMilliseconds sx = 100
         \<and> calculateResistance idle exact_resistance = Some (1, s', [level 0 9])"
    unfolding rr tr by auto
  from st zc cc c zr cr r show ?thesis by (intro conjI)
qed

section \<open>Transient measurement engine: clean-up\<close>

lemma PIN_LOW_charge: "PIN_LOW p pin_charge = 0"
  by (simp add: PIN_LOW_def logical_not_def pin_charge_def)

text \<open>
  Claim C10. Whenever \<open>calculateCapacitance\<close> or \<open>calculateResistance\<close> returns, the
  charging control line (bit \<open>pin_charge\<close> of port B) is low, the timer has no clock, and
  the overflow accumulator and the tick counter are zero.
\<close>

theorem measurement_restores_timer_and_charge_line:
  "(calculateCapacitance s env = Some (v, s', env') \<longrightarrow>
      \<not> bit (PORTB s') pin_charge \<and> TCCR1B s' = 0 \<and> \<not> timer_running s' \<and>
      timer1_overflow s' = 0 \<and> TCNT1 s' = 0)
   \<and> (calculateResistance s env = Some (w, t', env'') \<longrightarrow>
      \<not> bit (PORTB t') pin_charge \<and> TCCR1B t' = 0 \<and> \<not> timer_running t' \<and>
      timer1_overflow t' = 0 \<and> TCNT1 t' = 0)"
  by (auto simp: calculateCapacitance_def calculateResistance_def Let_def stopTimer1_def
      timer_running_def PIN_LOW_charge split: option.splits)

theorem measurement_restores_timer_and_charge_line_witness:
  "calculateCapacitance idle demo_capacitance = Some (2 / 625, measured_capacitance, [level 0 9])
   \<and> \<not> bit (PORTB measured_capacitance) pin_charge \<and> TCCR1B measured_capacitance = 0
   \<and> \<not> timer_running measured_capacitance
   \<and> timer1_overflow measured_capacitance = 0 \<and> TCNT1 measured_capacitance = 0
   \<and> calculateResistance idle demo_resistance = Some (1 / 3125, measured_resistance, [level 0 9])
   \<and> \<not> bit (PORTB measured_resistance) pin_charge \<and> TCCR1B measured_resistance = 0
   \<and> \<not> timer_running measured_resistance
   \<and> timer1_overflow measured_resistance = 0 \<and> TCNT1 measured_resistance = 0"
  using calculateCapacitance_demo calculateResistance_demo
    measurement_restores_timer_and_charge_line [of idle demo_capacitance "2 / 625"
      measured_capacitance "[level 0 9]" "1 / 3125" measured_resistance "[level 0 9]"]
    measurement_restores_timer_and_charge_line [of idle demo_resistance "2 / 625"
      measured_capacitance "[level 0 9]" "1 / 3125" measured_resistance "[level 0 9]"]
  by blast

section \<open>Direct reading converter\<close>

text \<open>
  Claim C8. The direct-reading conversions are the linear maps
  \<open>toVoltage(sample) = sample * 0.00488\<close> and \<open>toCurrent(sample) = sample * 0.488\<close>;
  \<open>toVoltage(0)\<close> is 0 and \<open>toVoltage\<close> is strictly increasing on all samples, in
  particular on 0 .. 1023.
\<close>

theorem direct_reading_linear:
  "toVoltage x = real (unat x) * 0.00488 \<and> toCurrent x = real (unat x) * 0.488 \<and>
   toVoltage 0 = 0 \<and> (x < y \<longrightarrow> toVoltage x < toVoltage y)"
  by (simp add: toVoltage_def toCurrent_def word_less_nat_alt del: of_nat_unat)

theorem direct_reading_linear_witness:
  "(646 :: u16) < 1023 \<and> toVoltage 646 < toVoltage 1023 \<and> toVoltage 1023 = 1023 * 0.00488"
proof -
  have a: "(646 :: u16) < 1023" by simp
  from a direct_reading_linear [of 1023 1023] direct_reading_linear [of 646 1023]
  show ?thesis by simp
qed

section \<open>Mode dispatcher\<close>

lemma calculateCapacitance_exact:
  "calculateCapacitance idle exact_capacitance = Some (10, measured_capacitance, [level 0 9])"
proof -
  have "crossing_capacitance idle exact_capacitance
      = Some (crossed_capacitance\<lparr>TCNT1 := 25000\<rparr>, [level 0 9])"
    by (simp add: crossing_capacitance_def discharge_capacitance_def charge_capacitance_def
        exact_capacitance_def idle_def level_def crossed_capacitance_def
        pin_capacitance_def pin_charge_def readADC_eval elapse_below_wrap elapse_stopped
        timer_running_def PIN_LOW_def PIN_HIGH_def logical_not_def startTimer1_def
        initTimer1_def CS11_def CS10_def)
  then show ?thesis
    by (simp add: calculateCapacitance_def)
       (simp add: crossed_capacitance_def measured_capacitance_def getMilliseconds_def
        stopTimer1_def PIN_LOW_def logical_not_def pin_charge_def)
qed

lemma calculateResistance_exact:
  "calculateResistance idle exact_resistance = Some (1, measured_resistance, [level 0 9])"
proof -
  have "crossing_resistance idle exact_resistance
      = Some (crossed_resistance\<lparr>TCNT1 := 25000\<rparr>, [level 0 9])"
    by (simp add: crossing_resistance_def discharge_resistance_def charge_resistance_def
        exact_resistance_def idle_def level_def crossed_resistance_def
        pin_resistance_def pin_charge_def readADC_eval elapse_below_wrap elapse_stopped
        timer_running_def PIN_LOW_def PIN_HIGH_def logical_not_def startTimer1_def
        initTimer1_def CS11_def CS10_def)
  then show ?thesis
    by (simp add: calculateResistance_def)
       (simp add: crossed_resistance_def measured_resistance_def getMilliseconds_def
        stopTimer1_def PIN_LOW_def logical_not_def pin_charge_def)
qed

text \<open>
  Claim C7. For every mode code outside Voltage = 1, Resistance = 2, Capacitance = 3 and
  Current = 4 the dispatcher produces the invalid outcome: it sends \<open>Invalid\<close>, computes no
  quantity (\<open>value\<close> keeps its initial 0) and invokes no measurement routine, so that it
  returns with the machine state unchanged and no conversion consumed, also when the
  converter would never complete one. For every recognised mode code it invokes exactly one
  of \<open>calculateCapacitance\<close>, \<open>calculateResistance\<close> and a direct reading: the quantity it
  reports, the state it leaves and the conversions it has consumed are exactly those of
  that one call, and it returns exactly when that call returns.
\<close>

theorem main_switch_dispatch:
  "(mode \<notin> {MODE_VOLTAGE, MODE_RESISTANCE, MODE_CAPACITANCE, MODE_CURRENT} \<longrightarrow>
      main_switch mode s env =
        Some \<lparr>sent = [Text (''Invalid'' @ [newline])], quantity = 0, after = s, left = env\<rparr>)
   \<and> map_option (\<lambda>r. (quantity r, after r, left r)) (main_switch MODE_CAPACITANCE s env)
       = calculateCapacitance s env
   \<and> map_option (\<lambda>r. (quantity r, after r, left r)) (main_switch MODE_RESISTANCE s env)
       = calculateResistance s env
   \<and> map_option (\<lambda>r. (quantity r, after r, left r)) (main_switch MODE_VOLTAGE s env)
       = (case env of
            [] \<Rightarrow> None
          | c # env' \<Rightarrow>
              Some (toVoltage (fst (readADC ISR_TIMER1_OVF pin_voltage c s)),
                    snd (readADC ISR_TIMER1_OVF pin_voltage c s), env'))
   \<and> map_option (\<lambda>r. (quantity r, after r, left r)) (main_switch MODE_CURRENT s env)
       = (case env of
            [] \<Rightarrow> None
          | c # env' \<Rightarrow>
              Some (toCurrent (fst (readADC ISR_TIMER1_OVF pin_current c s)),
                    snd (readADC ISR_TIMER1_OVF pin_current c s), env'))"
proof (intro conjI impI)
  assume "mode \<notin> {MODE_VOLTAGE, MODE_RESISTANCE, MODE_CAPACITANCE, MODE_CURRENT}"
  then show "main_switch mode s env =
      Some \<lparr>sent = [Text (''Invalid'' @ [newline])], quantity = 0, after = s, left = env\<rparr>"
    by (simp add: main_switch_def)
next
  show "map_option (\<lambda>r. (quantity r, after r, left r)) (main_switch MODE_CAPACITANCE s env)
      = calculateCapacitance s env"
    by (simp add: main_switch_def split: option.splits)
next
  show "map_option (\<lambda>r. (quantity r, after r, left r)) (main_switch MODE_RESISTANCE s env)
      = calculateResistance s env"
    by (simp add: main_switch_def MODE_RESISTANCE_def MODE_CAPACITANCE_def split: option.splits)
next
  show "map_option (\<lambda>r. (quantity r, after r, left r)) (main_switch MODE_VOLTAGE s env)
      = (case env of
            [] \<Rightarrow> None
          | c # env' \<Rightarrow>
              Some (toVoltage (fst (readADC ISR_TIMER1_OVF pin_voltage c s)),
                    snd (readADC ISR_TIMER1_OVF pin_voltage c s), env'))"
    by (simp add: main_switch_def MODE_VOLTAGE_def MODE_RESISTANCE_def MODE_CAPACITANCE_def
        Let_def split: list.splits prod.splits)
next
  show "map_option (\<lambda>r. (quantity r, after r, left r)) (main_switch MODE_CURRENT s env)
      = (case env of
            [] \<Rightarrow> None
          | c # env' \<Rightarrow>
              Some (toCurrent (fst (readADC ISR_TIMER1_OVF pin_current c s)),
                    snd (readADC ISR_TIMER1_OVF pin_current c s), env'))"
    by (simp add: main_switch_def MODE_VOLTAGE_def MODE_RESISTANCE_def MODE_CAPACITANCE_def
        MODE_CURRENT_def Let_def split: list.splits prod.splits)
qed

theorem main_switch_dispatch_witness:
  "checkMode 57 = 9
   \<and> checkMode 57 \<notin> {MODE_VOLTAGE, MODE_RESISTANCE, MODE_CAPACITANCE, MODE_CURRENT}
   \<and> main_switch (checkMode 57) idle [] =
        Some \<lparr>sent = [Text (''Invalid'' @ [newline])], quantity = 0, after = idle, left = []\<rparr>
   \<and> map_option (\<lambda>r. (quantity r, after r, left r))
        (main_switch MODE_CAPACITANCE idle exact_capacitance)
       = Some (10, measured_capacitance, [level 0 9])
   \<and> map_option (\<lambda>r. (quantity r, after r, left r))
        (main_switch MODE_RESISTANCE idle exact_resistance)
       = Some (1, measured_resistance, [level 0 9])
   \<and> main_switch MODE_CAPACITANCE idle [] = None
   \<and> map_option (\<lambda>r. (quantity r, left r)) (main_switch MODE_VOLTAGE idle [level 0 512])
       = Some (toVoltage 512, [])
   \<and> map_option (\<lambda>r. (quantity r, left r)) (main_switch MODE_CURRENT idle [level 0 512])
       = Some (toCurrent 512, [])"
proof -
  have m: "checkMode 57 = 9" by (simp add: checkMode_def)
  have n: "checkMode 57 \<notin> {MODE_VOLTAGE, MODE_RESISTANCE, MODE_CAPACITANCE, MODE_CURRENT}"
    by (simp add: m MODE_VOLTAGE_def MODE_RESISTANCE_def MODE_CAPACITANCE_def MODE_CURRENT_def)
  note d = main_switch_dispatch [of "checkMode 57" idle "[]"]
  have i0: "main_switch (checkMode 57) idle [] =
      Some \<lparr>sent = [Text (''Invalid'' @ [newline])], quantity = 0, after = idle, left = []\<rparr>"
    using d [THEN conjunct1, THEN mp, OF n] .
  have cn: "calculateCapacitance idle [] = None"
    by (simp add: calculateCapacitance_def crossing_capacitance_def discharge_capacitance_def)
  have c0: "main_switch MODE_CAPACITANCE idle [] = None"
    using d [THEN conjunct2, THEN conjunct1] cn by simp
  have c: "map_option (\<lambda>r. (quantity r, after r, left r))
        (main_switch MODE_CAPACITANCE idle exact_capacitance)
       = Some (10, measured_capacitance, [level 0 9])"
    using main_switch_dispatch [of mode idle exact_capacitance, THEN conjunct2, THEN conjunct1]
      calculateCapacitance_exact by simp
  have r: "map_option (\<lambda>r. (quantity r, after r, left r))
        (main_switch MODE_RESISTANCE idle exact_resistance)
       = Some (1, measured_resistance, [level 0 9])"
    using main_switch_dispatch [of mode idle exact_resistance,
        THEN conjunct2, THEN conjunct2, THEN conjunct1]
      calculateResistance_exact by simp
  have v0: "map_option (\<lambda>r. (quantity r, after r, left r))
        (main_switch MODE_VOLTAGE idle [level 0 512])
       = Some (toVoltage 512, snd (readADC ISR_TIMER1_OVF pin_voltage (level 0 512) idle), [])"
    using main_switch_dispatch [of mode idle "[level 0 512]",
        THEN conjunct2, THEN conjunct2, THEN conjunct2, THEN conjunct1]
    by (simp add: readADC_sample level_def)
  have i0': "map_option (\<lambda>r. (quantity r, after r, left r))
        (main_switch MODE_CURRENT idle [level 0 512])
       = Some (toCurrent 512, snd (readADC ISR_TIMER1_OVF pin_current (level 0 512) idle), [])"
    using main_switch_dispatch [of mode idle "[level 0 512]",
        THEN conjunct2, THEN conjunct2, THEN conjunct2, THEN conjunct2]
    by (simp add: readADC_sample level_def)
  have v: "map_option (\<lambda>r. (quantity r, left r)) (main_switch MODE_VOLTAGE idle [level 0 512])
       = Some (toVoltage 512, [])"
    using v0 by (cases "main_switch MODE_VOLTAGE idle [level 0 512]") simp_all
  have i: "map_option (\<lambda>r. (quantity r, left r)) (main_switch MODE_CURRENT idle [level 0 512])
       = Some (toCurrent 512, [])"
    using i0' by (cases "main_switch MODE_CURRENT idle [level 0 512]") simp_all
  from m n i0 c r c0 v i show ?thesis by (intro conjI)
qed

end
